theory Spec2Isabelle
  imports Main "HOL-Library.Word" "HOL-Library.AList"
begin

section \<open>JavaScript strings\<close>

text \<open>
  A JavaScript string is a sequence of UTF-16 code units. String literals of the
  source are written \<open>js ''...''\<close>; all of them are ASCII.
\<close>

type_synonym jsstring = "16 word list"

definition js :: "string \<Rightarrow> jsstring" where
  "js s = map of_char s"

definition dot :: "16 word" where
  "dot = 0x2E"

definition endsWith :: "jsstring \<Rightarrow> jsstring \<Rightarrow> bool" where
  "endsWith s e = (length e \<le> length s \<and> drop (length s - length e) s = e)"

definition startsWith :: "jsstring \<Rightarrow> jsstring \<Rightarrow> bool" where
  "startsWith s p = (take (length p) s = p)"

text \<open>
  \<open>String.prototype.trim\<close> removes leading and trailing WhiteSpace and
  LineTerminator code points: TAB, LF, VT, FF, CR, SP, NBSP, the other space
  separators of Unicode, LS, PS and the byte order mark.
\<close>

definition isWhiteSpace :: "16 word \<Rightarrow> bool" where
  "isWhiteSpace c =
     (c \<in> set [0x09, 0x0A, 0x0B, 0x0C, 0x0D, 0x20, 0xA0, 0x1680,
                0x2028, 0x2029, 0x202F, 0x205F, 0x3000, 0xFEFF]
      \<or> (0x2000 \<le> c \<and> c \<le> 0x200A))"

definition trim :: "jsstring \<Rightarrow> jsstring" where
  "trim s = rev (dropWhile isWhiteSpace (rev (dropWhile isWhiteSpace s)))"

section \<open>The path module\<close>

text \<open>
  \<open>basename\<close> and \<open>extname\<close> come from \<open>node:path\<close> and follow the platform the
  action runs on. On POSIX the only separator is the slash; on Windows the backslash is a
  separator too and a leading drive letter with its colon is skipped.
\<close>

datatype flavor = Posix | Win32

definition isPathSeparator :: "flavor \<Rightarrow> 16 word \<Rightarrow> bool" where
  "isPathSeparator fl c = (c = 0x2F \<or> (fl = Win32 \<and> c = 0x5C))"

definition isWindowsDeviceRoot :: "16 word \<Rightarrow> bool" where
  "isWindowsDeviceRoot c = ((0x41 \<le> c \<and> c \<le> 0x5A) \<or> (0x61 \<le> c \<and> c \<le> 0x7A))"

definition driveLength :: "flavor \<Rightarrow> jsstring \<Rightarrow> nat" where
  "driveLength fl p =
     (case (fl, p) of
        (Win32, c # d # _) \<Rightarrow> (if isWindowsDeviceRoot c \<and> d = 0x3A then 2 else 0)
      | _ \<Rightarrow> 0)"

text \<open>The separators that end the path, and the component in front of them.\<close>

definition trailingSeparators :: "flavor \<Rightarrow> jsstring \<Rightarrow> jsstring" where
  "trailingSeparators fl p =
     rev (takeWhile (isPathSeparator fl) (rev (drop (driveLength fl p) p)))"

definition lastComponent :: "flavor \<Rightarrow> jsstring \<Rightarrow> jsstring" where
  "lastComponent fl p =
     rev (takeWhile (\<lambda>c. \<not> isPathSeparator fl c)
            (dropWhile (isPathSeparator fl) (rev (drop (driveLength fl p) p))))"

text \<open>
  \<open>extname\<close>: from the last dot of the last component to its end; empty when the
  component has no dot, starts with its only dot, or is \<open>..\<close>.
\<close>

definition extname :: "flavor \<Rightarrow> jsstring \<Rightarrow> jsstring" where
  "extname fl p =
     (let c = lastComponent fl p;
          ext = rev (takeWhile (\<lambda>x. x \<noteq> dot) (rev c));
          stem = take (length c - length ext - 1) c
      in if dot \<notin> set c \<or> stem = [] \<or> c = [dot, dot] then [] else dot # ext)"

text \<open>
  \<open>basename\<close> with a suffix. Without a usable suffix (empty, or longer than the
  path) it is the last component. Otherwise the suffix is compared with the component
  from the right: a component that ends with the suffix and is longer loses it, a
  component that is itself the end of a longer suffix is returned together with the
  separators that follow it, and any other component is returned as it is.
\<close>

definition basename :: "flavor \<Rightarrow> jsstring \<Rightarrow> jsstring \<Rightarrow> jsstring" where
  "basename fl p suffix =
     (let c = lastComponent fl p in
      if suffix = [] \<or> length p < length suffix then c
      else if suffix = p then []
      else if c = [] then drop (driveLength fl p) p
      else if endsWith c suffix then
        (if length c = length suffix then c else take (length c - length suffix) c)
      else if endsWith suffix c then c @ trailingSeparators fl p
      else c)"

section \<open>Asset name normalisation\<close>

text \<open>
  Lines 102 to 107 of \<open>upload-version-json.ts\<close>: the asset name is trimmed, each
  space and each round, square or curly bracket becomes a dot, one global replace turns
  pairs of dots into single dots, the string is decomposed canonically (NFD) and the code
  units U+0300 to U+036F are removed.
\<close>

definition isBracketOrSpace :: "16 word \<Rightarrow> bool" where
  "isBracketOrSpace c = (c \<in> set [0x20, 0x28, 0x29, 0x5B, 0x5D, 0x7B, 0x7D])"

definition replaceBrackets :: "jsstring \<Rightarrow> jsstring" where
  "replaceBrackets s = map (\<lambda>c. if isBracketOrSpace c then dot else c) s"

text \<open>
  A global replace scans from the left and resumes after each match, so the matches of
  the two-dot pattern are disjoint pairs of dots.
\<close>

fun collapseDots :: "jsstring \<Rightarrow> jsstring" where
  "collapseDots (a # b # r) =
     (if a = dot \<and> b = dot then dot # collapseDots r else a # collapseDots (b # r))"
| "collapseDots s = s"

definition isCombiningMark :: "16 word \<Rightarrow> bool" where
  "isCombiningMark c = (0x0300 \<le> c \<and> c \<le> 0x036F)"

definition stripMarks :: "jsstring \<Rightarrow> jsstring" where
  "stripMarks s = filter (\<lambda>c. \<not> isCombiningMark c) s"

text \<open>
  Canonical decomposition is a table of the Unicode standard, not of this program: the
  normaliser takes it as the parameter \<open>nfd\<close>.
\<close>

definition normalizeAssetName :: "(jsstring \<Rightarrow> jsstring) \<Rightarrow> jsstring \<Rightarrow> jsstring" where
  "normalizeAssetName nfd asset =
     stripMarks (nfd (collapseDots (replaceBrackets (trim asset))))"

text \<open>
  No code point below U+00C0 has a canonical decomposition, so on a string of ASCII code
  units NFD is the identity. The concrete runs below use ASCII names only.
\<close>

definition asciiNFD :: "jsstring \<Rightarrow> jsstring" where
  "asciiNFD s = s"

text \<open>
  The specification's reading of the collapse step: collapse pairs of dots again and
  again until a pass changes nothing.
\<close>

function collapseRepeatedly :: "jsstring \<Rightarrow> jsstring" where
  "collapseRepeatedly s =
     (if collapseDots s = s then s else collapseRepeatedly (collapseDots s))"
  by pat_completeness auto
termination
proof (relation "measure length")
  show "wf (measure length)"
    by simp
next
  fix s :: jsstring
  assume changed: "collapseDots s \<noteq> s"
  have "length (collapseDots t) \<le> length t
      \<and> (collapseDots t \<noteq> t \<longrightarrow> length (collapseDots t) < length t)" for t
    by (induction t rule: collapseDots.induct) auto
  with changed show "(collapseDots s, s) \<in> measure length"
    by simp
qed

declare collapseRepeatedly.simps [simp del]

definition normalizeRepeatedly :: "(jsstring \<Rightarrow> jsstring) \<Rightarrow> jsstring \<Rightarrow> jsstring" where
  "normalizeRepeatedly nfd asset =
     stripMarks (nfd (collapseRepeatedly (replaceBrackets (trim asset))))"

fun adjacentDots :: "jsstring \<Rightarrow> bool" where
  "adjacentDots (a # b # r) = ((a = dot \<and> b = dot) \<or> adjacentDots (b # r))"
| "adjacentDots s = False"

fun tripleDots :: "jsstring \<Rightarrow> bool" where
  "tripleDots (a # b # c # r) =
     ((a = dot \<and> b = dot \<and> c = dot) \<or> tripleDots (b # c # r))"
| "tripleDots s = False"

section \<open>Data model\<close>

text \<open>
  The types of the source: \<open>Artifact\<close> and \<open>TargetInfo\<close> from \<open>types.ts\<close>, the
  matched assets pushed onto \<open>filteredAssets\<close> (an artifact with its download URL and
  asset name), the release assets of the listing, and \<open>Platform\<close> and
  \<open>VersionContent\<close>. The \<open>platforms\<close> object is an association list in property
  order: assigning to a key that exists keeps its place, a new key goes to the end.
\<close>

record Artifact =
  path :: jsstring
  arch :: jsstring

record FilteredAsset = Artifact +
  downloadUrl :: jsstring
  assetName :: jsstring

record TargetInfo =
  platform :: jsstring

record ReleaseAsset =
  name :: jsstring
  browser_download_url :: jsstring
  asset_id :: nat

record Platform =
  signature :: jsstring
  url :: jsstring

type_synonym platform_map = "(jsstring \<times> Platform) list"

record VersionContent =
  version :: jsstring
  "notes" :: jsstring
  pub_date :: jsstring
  platforms :: platform_map

section \<open>The world outside\<close>

text \<open>
  What the run reads from its environment. The release is the one that \<open>owner\<close>,
  \<open>repo\<close> and \<open>releaseId\<close> name; \<open>releaseAssets\<close> are all its assets in the
  order of the listing. The body of an asset is represented by what
  \<open>JSON.parse(...).platforms\<close> makes of it: a syntax error, or a value of the declared
  type of \<open>VersionContent.platforms\<close>. Requests to the hosting platform are taken to
  succeed.
\<close>

datatype body = NotJSON | Manifest platform_map

record world =
  GITHUB_TOKEN :: "jsstring option"
  cwd :: jsstring
  now :: jsstring
  releaseAssets :: "ReleaseAsset list"
  assetData :: "nat \<Rightarrow> body"
  files :: "jsstring \<rightharpoonup> jsstring"

text \<open>
  What the source imports and does not define: the platform of \<open>node:path\<close>, the
  Unicode decomposition, and \<open>getAssetName\<close> of \<open>utils.ts\<close>.
\<close>

record externals =
  pathFlavor :: flavor
  normalizeNFD :: "jsstring \<Rightarrow> jsstring"
  getAssetName :: "jsstring \<Rightarrow> jsstring"

text \<open>
  Modelled from the spec: \<open>getAssetName\<close> of \<open>utils.ts\<close> is not among the sources;
  section 4.1 of the specification says the normaliser takes the file's base name.
\<close>

definition getAssetNameSpec :: "flavor \<Rightarrow> jsstring \<Rightarrow> jsstring" where
  "getAssetNameSpec fl assetPath = basename fl assetPath []"

definition posixAscii :: externals where
  "posixAscii =
     \<lparr>pathFlavor = Posix, normalizeNFD = asciiNFD, getAssetName = getAssetNameSpec Posix\<rparr>"

datatype error = MissingToken | TokenRequired | SyntaxError | ENOENT jsstring

datatype effect =
    ListReleaseAssets nat
  | GetReleaseAsset nat
  | WriteFile jsstring VersionContent
  | DeleteReleaseAsset nat
  | UploadAssets "Artifact list"

datatype outcome = NoSignature | NoAsset | Published VersionContent

text \<open>The effects that change the local file or the release.\<close>

fun mutates :: "effect \<Rightarrow> bool" where
  "mutates (ListReleaseAssets per_page) = False"
| "mutates (GetReleaseAsset i) = False"
| "mutates (WriteFile file content) = True"
| "mutates (DeleteReleaseAsset i) = True"
| "mutates (UploadAssets uploads) = True"

section \<open>Listing and the existing manifest\<close>

definition versionFilename :: jsstring where
  "versionFilename = js ''latest.json''"

text \<open>
  \<open>resolve(process.cwd(), versionFilename)\<close>. The working directory is absolute and
  normalised, so it ends with a separator only when it is a root; the file name is joined
  to it with the separator of the platform, a slash on POSIX and a backslash on Windows.
\<close>

definition pathSeparator :: "flavor \<Rightarrow> 16 word" where
  "pathSeparator fl = (case fl of Posix \<Rightarrow> 0x2F | Win32 \<Rightarrow> 0x5C)"

definition versionFile :: "flavor \<Rightarrow> world \<Rightarrow> jsstring" where
  "versionFile fl w =
     (if cwd w \<noteq> [] \<and> isPathSeparator fl (last (cwd w)) then cwd w @ versionFilename
      else cwd w @ [pathSeparator fl] @ versionFilename)"

text \<open>
  \<open>getOctokit\<close> of \<open>@actions/github\<close> (line 52) builds the client before any
  request is made, and raises \<open>Parameter token or opts.auth is required\<close> when the
  token is the empty string: line 48 lets it through, being only a test for
  \<open>undefined\<close>.
\<close>

definition getOctokit :: "jsstring \<Rightarrow> error + unit" where
  "getOctokit token = (if token = [] then Inl TokenRequired else Inr ())"

text \<open>The listing request asks for one page of \<open>per_page\<close> assets, the first.\<close>

definition listReleaseAssets :: "nat \<Rightarrow> world \<Rightarrow> ReleaseAsset list" where
  "listReleaseAssets per_page w = take per_page (releaseAssets w)"

definition findVersionAsset :: "ReleaseAsset list \<Rightarrow> ReleaseAsset option" where
  "findVersionAsset assets = List.find (\<lambda>e. name e = versionFilename) assets"

definition fetchPlatforms :: "world \<Rightarrow> ReleaseAsset option \<Rightarrow> error + platform_map" where
  "fetchPlatforms w asset =
     (case asset of
        None \<Rightarrow> Inr []
      | Some a \<Rightarrow>
          (case assetData w (asset_id a) of
             NotJSON \<Rightarrow> Inl SyntaxError
           | Manifest ps \<Rightarrow> Inr ps))"

section \<open>Asset matcher\<close>

definition downloadUrls :: "ReleaseAsset list \<Rightarrow> (jsstring \<rightharpoonup> jsstring)" where
  "downloadUrls assets =
     fold (\<lambda>d m. m(name d \<mapsto> browser_download_url d)) assets Map.empty"

definition artifactAssetName :: "externals \<Rightarrow> Artifact \<Rightarrow> jsstring" where
  "artifactAssetName ext artifact =
     normalizeAssetName (normalizeNFD ext) (getAssetName ext (path artifact))"

definition matchArtifact ::
  "externals \<Rightarrow> (jsstring \<rightharpoonup> jsstring) \<Rightarrow> Artifact \<Rightarrow> FilteredAsset option" where
  "matchArtifact ext urls artifact =
     (case urls (artifactAssetName ext artifact) of
        None \<Rightarrow> None
      | Some found \<Rightarrow>
          if found = [] then None
          else Some \<lparr>path = path artifact, arch = arch artifact,
                     downloadUrl = found, assetName = artifactAssetName ext artifact\<rparr>)"

definition filterAssets ::
  "externals \<Rightarrow> (jsstring \<rightharpoonup> jsstring) \<Rightarrow> Artifact list \<Rightarrow> FilteredAsset list" where
  "filterAssets ext urls artifacts = List.map_filter (matchArtifact ext urls) artifacts"

definition signatureFilesOf :: "FilteredAsset list \<Rightarrow> FilteredAsset list" where
  "signatureFilesOf filteredAssets =
     filter (\<lambda>asset. endsWith (assetName asset) (js ''.sig'')) filteredAssets"

section \<open>Signature selector\<close>

definition priorities :: "bool \<Rightarrow> jsstring list" where
  "priorities updaterJsonPreferNsis =
     (if updaterJsonPreferNsis
      then [js ''.nsis.zip.sig'', js ''.exe.sig'', js ''.msi.zip.sig'', js ''.msi.sig'']
      else [js ''.msi.zip.sig'', js ''.msi.sig'', js ''.nsis.zip.sig'', js ''.exe.sig''])"

fun priorityFrom :: "jsstring \<Rightarrow> nat \<Rightarrow> jsstring list \<Rightarrow> int" where
  "priorityFrom signaturePath index [] = 0"
| "priorityFrom signaturePath index (extension # rest) =
     (if endsWith signaturePath extension then 100 - int index
      else priorityFrom signaturePath (Suc index) rest)"

definition signaturePriority :: "bool \<Rightarrow> jsstring \<Rightarrow> int" where
  "signaturePriority updaterJsonPreferNsis signaturePath =
     priorityFrom signaturePath 0 (priorities updaterJsonPreferNsis)"

text \<open>
  \<open>Array.prototype.sort\<close> is stable; with a comparator it puts \<open>a\<close> before \<open>b\<close>
  when the comparator is negative and keeps their order when it is zero.
\<close>

fun insertBy :: "('a \<Rightarrow> 'a \<Rightarrow> int) \<Rightarrow> 'a \<Rightarrow> 'a list \<Rightarrow> 'a list" where
  "insertBy cmp x [] = [x]"
| "insertBy cmp x (y # ys) =
     (if cmp x y \<le> 0 then x # y # ys else y # insertBy cmp x ys)"

definition sortBy :: "('a \<Rightarrow> 'a \<Rightarrow> int) \<Rightarrow> 'a list \<Rightarrow> 'a list" where
  "sortBy cmp xs = foldr (insertBy cmp) xs []"

definition comparePriority :: "bool \<Rightarrow> FilteredAsset \<Rightarrow> FilteredAsset \<Rightarrow> int" where
  "comparePriority updaterJsonPreferNsis a b =
     signaturePriority updaterJsonPreferNsis (path b)
       - signaturePriority updaterJsonPreferNsis (path a)"

definition sortSignatureFiles :: "bool \<Rightarrow> FilteredAsset list \<Rightarrow> FilteredAsset list" where
  "sortSignatureFiles updaterJsonPreferNsis signatureFiles =
     sortBy (comparePriority updaterJsonPreferNsis) signatureFiles"

definition selectSignature :: "bool \<Rightarrow> FilteredAsset list \<Rightarrow> FilteredAsset option" where
  "selectSignature updaterJsonPreferNsis signatureFiles =
     (case sortSignatureFiles updaterJsonPreferNsis signatureFiles of
        [] \<Rightarrow> None
      | signatureFile # _ \<Rightarrow> Some signatureFile)"

text \<open>
  The specification's score: 100 minus the index of the first suffix of the active list
  that the path ends with, 0 when there is none.
\<close>

definition score :: "bool \<Rightarrow> jsstring \<Rightarrow> int" where
  "score preferNsis p =
     (case filter (\<lambda>i. endsWith p (priorities preferNsis ! i)) [0 ..< 4] of
        [] \<Rightarrow> 0
      | i # _ \<Rightarrow> 100 - int i)"

section \<open>Companion artifact\<close>

definition updaterNameOf :: "flavor \<Rightarrow> FilteredAsset \<Rightarrow> jsstring" where
  "updaterNameOf fl signatureFile =
     basename fl (assetName signatureFile) (extname fl (assetName signatureFile))"

definition companion :: "flavor \<Rightarrow> FilteredAsset list \<Rightarrow> FilteredAsset \<Rightarrow> FilteredAsset option" where
  "companion fl filteredAssets signatureFile =
     List.find (\<lambda>asset. assetName asset = updaterNameOf fl signatureFile) filteredAssets"

definition companionUrl :: "flavor \<Rightarrow> FilteredAsset list \<Rightarrow> FilteredAsset \<Rightarrow> jsstring option" where
  "companionUrl fl filteredAssets signatureFile =
     (case companion fl filteredAssets signatureFile of
        None \<Rightarrow> None
      | Some asset \<Rightarrow> if downloadUrl asset = [] then None else Some (downloadUrl asset))"

section \<open>URL rewriter\<close>

text \<open>
  The pattern of line 168 matches \<open>/download/untagged-\<close>, then one or more code units
  that are not slashes (with \<open>untagged-\<close> they are group 1), then a slash.
  \<open>matchUntagged\<close> tries it at the head of a string and returns group 1 and the rest of
  the string; \<open>execUntagged\<close> finds the leftmost match and returns what stands before
  it, the match, group 1 and what follows.
\<close>

definition slash :: "16 word" where
  "slash = 0x2F"

definition matchUntagged :: "jsstring \<Rightarrow> (jsstring \<times> jsstring) option" where
  "matchUntagged s =
     (if startsWith s (js ''/download/untagged-'') then
        (let t = drop (length (js ''/download/untagged-'')) s;
             seg = takeWhile (\<lambda>c. c \<noteq> slash) t;
             r = drop (length seg) t
         in if seg \<noteq> [] \<and> r \<noteq> [] then Some (js ''untagged-'' @ seg, tl r) else None)
      else None)"

fun execUntagged ::
  "jsstring \<Rightarrow> jsstring \<Rightarrow> (jsstring \<times> jsstring \<times> jsstring \<times> jsstring) option" where
  "execUntagged preceding [] = None"
| "execUntagged preceding (c # s) =
     (case matchUntagged (c # s) of
        Some (group1, following) \<Rightarrow>
          Some (preceding, js ''/download/'' @ group1 @ js ''/'', group1, following)
      | None \<Rightarrow> execUntagged (preceding @ [c]) s)"

text \<open>
  \<open>String.prototype.replace\<close> expands the replacement string (GetSubstitution of
  ECMA-262). For a pattern with one capture group and no named groups: a dollar followed
  by a dollar is one dollar; followed by an ampersand it is the match; followed by a
  backtick (U+0060), what stands before the match; followed by an apostrophe (U+0027),
  what follows it; followed by 1 or by 01, group 1; every other dollar stands for itself.
\<close>

fun getSubstitution ::
  "jsstring \<Rightarrow> jsstring \<Rightarrow> jsstring \<Rightarrow> jsstring \<Rightarrow> jsstring \<Rightarrow> jsstring" where
  "getSubstitution matched preceding following group1 [] = []"
| "getSubstitution matched preceding following group1 [c] = [c]"
| "getSubstitution matched preceding following group1 (c # d # t) =
     (if c \<noteq> 0x24 then c # getSubstitution matched preceding following group1 (d # t)
      else if d = 0x24 then 0x24 # getSubstitution matched preceding following group1 t
      else if d = 0x26 then matched @ getSubstitution matched preceding following group1 t
      else if d = 0x60 then preceding @ getSubstitution matched preceding following group1 t
      else if d = 0x27 then following @ getSubstitution matched preceding following group1 t
      else if d = 0x31 then group1 @ getSubstitution matched preceding following group1 t
      else if d = 0x30 then
        (case t of
           [] \<Rightarrow> [c, d]
         | e # t' \<Rightarrow>
             if e = 0x31 then group1 @ getSubstitution matched preceding following group1 t'
             else if e = 0x30 then
               c # d # e # getSubstitution matched preceding following group1 t'
             else c # d # getSubstitution matched preceding following group1 t)
      else if d = 0x3C then c # d # getSubstitution matched preceding following group1 t
      else c # getSubstitution matched preceding following group1 (d # t))"

definition replacement :: "jsstring \<Rightarrow> jsstring" where
  "replacement tagName =
     (if tagName \<noteq> [] then js ''/download/'' @ tagName @ js ''/''
      else js ''/latest/download/'')"

definition rewriteUntagged :: "jsstring \<Rightarrow> jsstring \<Rightarrow> jsstring" where
  "rewriteUntagged url0 tagName =
     (case execUntagged [] url0 of
        None \<Rightarrow> url0
      | Some (preceding, matched, group1, following) \<Rightarrow>
          preceding
          @ getSubstitution matched preceding following group1 (replacement tagName)
          @ following)"

section \<open>Platform key resolver\<close>

definition resolveOs :: "TargetInfo \<Rightarrow> jsstring" where
  "resolveOs targetInfo =
     (if platform targetInfo = js ''macos'' then js ''darwin'' else platform targetInfo)"

definition resolveArch :: "jsstring \<Rightarrow> jsstring" where
  "resolveArch a =
     (if a = js ''amd64'' \<or> a = js ''x86_64'' \<or> a = js ''x64'' then js ''x86_64''
      else if a = js ''x86'' \<or> a = js ''i386'' then js ''i686''
      else if a = js ''arm'' then js ''armv7''
      else if a = js ''arm64'' then js ''aarch64''
      else a)"

definition platformKey :: "jsstring \<Rightarrow> jsstring \<Rightarrow> jsstring" where
  "platformKey os a = os @ js ''-'' @ a"

section \<open>Manifest merger\<close>

text \<open>
  \<open>readFileSync\<close> raises when the file is missing. Each of the three writes of lines
  190 to 210 reads the signature file when, and only when, it assigns.
\<close>

definition readFileSync :: "world \<Rightarrow> jsstring \<Rightarrow> error + jsstring" where
  "readFileSync w p = (case files w p of None \<Rightarrow> Inl (ENOENT p) | Some s \<Rightarrow> Inr s)"

definition assignEntry ::
  "world \<Rightarrow> jsstring \<Rightarrow> jsstring \<Rightarrow> jsstring \<Rightarrow> platform_map \<Rightarrow> error + platform_map" where
  "assignEntry w key sigPath url1 ps =
     (case readFileSync w sigPath of
        Inl e \<Rightarrow> Inl e
      | Inr s \<Rightarrow> Inr (AList.update key \<lparr>signature = s, url = url1\<rparr> ps))"

definition assignIfAbsent ::
  "world \<Rightarrow> jsstring \<Rightarrow> jsstring \<Rightarrow> jsstring \<Rightarrow> platform_map \<Rightarrow> error + platform_map" where
  "assignIfAbsent w key sigPath url1 ps =
     (if map_of ps key = None then assignEntry w key sigPath url1 ps else Inr ps)"

definition universalWrites ::
  "world \<Rightarrow> jsstring \<Rightarrow> jsstring \<Rightarrow> platform_map \<Rightarrow> error + platform_map" where
  "universalWrites w sigPath url1 ps =
     (case assignIfAbsent w (js ''darwin-aarch64'') sigPath url1 ps of
        Inl e \<Rightarrow> Inl e
      | Inr ps' \<Rightarrow> assignIfAbsent w (js ''darwin-x86_64'') sigPath url1 ps')"

definition writePlatforms ::
  "world \<Rightarrow> bool \<Rightarrow> jsstring \<Rightarrow> jsstring \<Rightarrow> jsstring \<Rightarrow> jsstring \<Rightarrow> platform_map
     \<Rightarrow> error + platform_map" where
  "writePlatforms w updaterJsonKeepUniversal os a sigPath url1 ps =
     (case (if os = js ''darwin'' \<and> a = js ''universal''
            then universalWrites w sigPath url1 ps else Inr ps) of
        Inl e \<Rightarrow> Inl e
      | Inr ps' \<Rightarrow>
          if updaterJsonKeepUniversal \<or> os \<noteq> js ''darwin'' \<or> a \<noteq> js ''universal''
          then assignEntry w (platformKey os a) sigPath url1 ps'
          else Inr ps')"

section \<open>The run\<close>

text \<open>
  \<open>uploadVersionJSON\<close> returns what the promise settles with (an error, or how the run
  ended) and the requests and file writes it made, in order. A token that is undefined
  or empty ends the run before any request. \<open>publish\<close> is the run from line 124 on,
  once the listing is read and the existing manifest merged in.
\<close>

definition publish ::
  "externals \<Rightarrow> world \<Rightarrow> jsstring \<Rightarrow> jsstring \<Rightarrow> jsstring \<Rightarrow> TargetInfo \<Rightarrow> bool \<Rightarrow> bool
     \<Rightarrow> ReleaseAsset option \<Rightarrow> platform_map \<Rightarrow> FilteredAsset list
     \<Rightarrow> (error + outcome) \<times> effect list" where
  "publish ext w version1 notes1 tagName targetInfo updaterJsonPreferNsis
       updaterJsonKeepUniversal asset ps filteredAssets =
     (case selectSignature updaterJsonPreferNsis (signatureFilesOf filteredAssets) of
        None \<Rightarrow> (Inr NoSignature, [])
      | Some signatureFile \<Rightarrow>
          (case companionUrl (pathFlavor ext) filteredAssets signatureFile of
             None \<Rightarrow> (Inr NoAsset, [])
           | Some url0 \<Rightarrow>
               (case writePlatforms w updaterJsonKeepUniversal (resolveOs targetInfo)
                       (resolveArch (arch signatureFile)) (path signatureFile)
                       (rewriteUntagged url0 tagName) ps of
                  Inl e \<Rightarrow> (Inl e, [])
                | Inr ps' \<Rightarrow>
                    (let versionContent =
                           \<lparr>version = version1, notes = notes1, pub_date = now w,
                            platforms = ps'\<rparr>
                     in (Inr (Published versionContent),
                         [WriteFile (versionFile (pathFlavor ext) w) versionContent]
                         @ (case asset of
                              None \<Rightarrow> []
                            | Some a \<Rightarrow> [DeleteReleaseAsset (asset_id a)])
                         @ [UploadAssets
                              [\<lparr>path = versionFile (pathFlavor ext) w, arch = []\<rparr>]])))))"

definition uploadVersionJSON ::
  "externals \<Rightarrow> world \<Rightarrow> jsstring \<Rightarrow> jsstring \<Rightarrow> jsstring \<Rightarrow> Artifact list \<Rightarrow> TargetInfo
     \<Rightarrow> bool \<Rightarrow> bool \<Rightarrow> (error + outcome) \<times> effect list" where
  "uploadVersionJSON ext w version1 notes1 tagName artifacts targetInfo
       updaterJsonPreferNsis updaterJsonKeepUniversal =
     (case GITHUB_TOKEN w of
        None \<Rightarrow> (Inl MissingToken, [])
      | Some token \<Rightarrow>
          (case getOctokit token of
             Inl e \<Rightarrow> (Inl e, [])
           | Inr github \<Rightarrow>
               (let assets = listReleaseAssets 50 w;
                    asset = findVersionAsset assets;
                    requests = ListReleaseAssets 50
                      # (case asset of
                           None \<Rightarrow> []
                         | Some a \<Rightarrow> [GetReleaseAsset (asset_id a)])
                in case fetchPlatforms w asset of
                     Inl e \<Rightarrow> (Inl e, requests)
                   | Inr ps \<Rightarrow>
                       (let (result, effects) =
                              publish ext w version1 notes1 tagName targetInfo
                                updaterJsonPreferNsis updaterJsonKeepUniversal asset ps
                                (filterAssets ext (downloadUrls assets) artifacts)
                        in (result, requests @ effects)))))"

section \<open>Concrete inputs\<close>

text \<open>
  Three signatures of one Windows build, as the matcher would hand them on, and the
  installers they sign.
\<close>

definition matched :: "string \<Rightarrow> string \<Rightarrow> string \<Rightarrow> FilteredAsset" where
  "matched file a u =
     \<lparr>path = js ''bundle/'' @ js file, arch = js a,
      downloadUrl = js u, assetName = js file\<rparr>"

definition exeSig :: FilteredAsset where
  "exeSig = matched ''app.exe.sig'' ''x64'' ''https://host/download/v1/app.exe.sig''"

definition msiSig :: FilteredAsset where
  "msiSig = matched ''app.msi.sig'' ''x64'' ''https://host/download/v1/app.msi.sig''"

definition nsisZipSig :: FilteredAsset where
  "nsisZipSig =
     matched ''app.nsis.zip.sig'' ''x64'' ''https://host/download/v1/app.nsis.zip.sig''"

definition msiZipSig :: FilteredAsset where
  "msiZipSig =
     matched ''app.msi.zip.sig'' ''x64'' ''https://host/download/v1/app.msi.zip.sig''"

definition msiZip :: FilteredAsset where
  "msiZip = matched ''app.msi.zip'' ''x64'' ''https://host/download/v1/app.msi.zip''"

definition msi :: FilteredAsset where
  "msi = matched ''app.msi'' ''x64'' ''https://host/download/v1/app.msi''"

text \<open>A signature file whose whole name is its extension.\<close>

definition bareSig :: FilteredAsset where
  "bareSig = matched ''.sig'' ''x64'' ''https://host/download/v1/.sig''"

text \<open>
  A release with a universal macOS build: the updater bundle and its signature are
  uploaded under an untagged URL, and the manifest already published holds the entry of
  a native Apple silicon build.
\<close>

definition releaseAsset :: "string \<Rightarrow> string \<Rightarrow> nat \<Rightarrow> ReleaseAsset" where
  "releaseAsset n u i = \<lparr>name = js n, browser_download_url = js u, asset_id = i\<rparr>"

definition nativeEntry :: Platform where
  "nativeEntry =
     \<lparr>signature = js ''native-signature'',
      url = js ''https://host/download/v1.2.3/app_aarch64.app.tar.gz''\<rparr>"

definition intelEntry :: Platform where
  "intelEntry =
     \<lparr>signature = js ''intel-signature'',
      url = js ''https://host/download/v1.2.3/app_x64.app.tar.gz''\<rparr>"

definition universalSigPath :: jsstring where
  "universalSigPath = js ''bundle/app.app.tar.gz.sig''"

definition universalUrl :: jsstring where
  "universalUrl = js ''https://host/download/v1.2.3/app.app.tar.gz''"

definition universalEntry :: Platform where
  "universalEntry = \<lparr>signature = js ''universal-signature'', url = universalUrl\<rparr>"

definition macArtifacts :: "Artifact list" where
  "macArtifacts =
     [\<lparr>path = js ''bundle/app.app.tar.gz'', arch = js ''universal''\<rparr>,
      \<lparr>path = universalSigPath, arch = js ''universal''\<rparr>]"

definition macTarget :: TargetInfo where
  "macTarget = \<lparr>platform = js ''macos''\<rparr>"

definition macWorld :: world where
  "macWorld =
     \<lparr>GITHUB_TOKEN = Some (js ''token''),
      cwd = js ''/work'',
      now = js ''2024-05-01T10:00:00.000Z'',
      releaseAssets =
        [releaseAsset ''app.app.tar.gz''
           ''https://host/download/untagged-abc123/app.app.tar.gz'' 1,
         releaseAsset ''app.app.tar.gz.sig''
           ''https://host/download/untagged-abc123/app.app.tar.gz.sig'' 2,
         releaseAsset ''latest.json''
           ''https://host/download/untagged-abc123/latest.json'' 3],
      assetData = (\<lambda>i. if i = 3 then Manifest [(js ''darwin-aarch64'', nativeEntry)]
                         else NotJSON),
      files = [universalSigPath \<mapsto> js ''universal-signature'']\<rparr>"

definition latestJson :: ReleaseAsset where
  "latestJson =
     releaseAsset ''latest.json'' ''https://host/download/untagged-abc123/latest.json'' 3"

text \<open>The same release with an unreadable manifest, and with no signature uploaded.\<close>

definition brokenWorld :: world where
  "brokenWorld = macWorld\<lparr>assetData := (\<lambda>i. NotJSON)\<rparr>"

definition unsignedWorld :: world where
  "unsignedWorld =
     macWorld\<lparr>releaseAssets :=
        [releaseAsset ''app.app.tar.gz''
           ''https://host/download/untagged-abc123/app.app.tar.gz'' 1,
         releaseAsset ''latest.json''
           ''https://host/download/untagged-abc123/latest.json'' 3]\<rparr>"

text \<open>
  Releases with more than fifty assets: other assets fill the first page of the listing,
  so that the assets of the build appear on it only in part or not at all.
\<close>

definition fillerAssets :: "nat \<Rightarrow> ReleaseAsset list" where
  "fillerAssets n =
     map (\<lambda>i. \<lparr>name = js ''other-'' @ [of_nat (48 + i div 10), of_nat (48 + i mod 10)],
               browser_download_url = js ''https://host/download/v1.2.3/other'',
               asset_id = 100 + i\<rparr>) [0 ..< n]"

definition crowdedWorld :: world where
  "crowdedWorld = macWorld\<lparr>releaseAssets := fillerAssets 48 @ releaseAssets macWorld\<rparr>"

definition overfullWorld :: world where
  "overfullWorld = macWorld\<lparr>releaseAssets := fillerAssets 49 @ releaseAssets macWorld\<rparr>"

text \<open>
  The manifest a first run publishes on that release, and the release as a second run
  finds it, the new manifest uploaded in place of the old one.
\<close>

definition firstManifest :: VersionContent where
  "firstManifest =
     \<lparr>version = js ''1.2.3'', notes = js ''notes'',
      pub_date = js ''2024-05-01T10:00:00.000Z'',
      platforms = [(js ''darwin-aarch64'', nativeEntry),
                   (js ''darwin-x86_64'', universalEntry)]\<rparr>"



section \<open>The collapse pass of the normaliser\<close>

lemma collapseDots_head: "collapseDots (c # s) = c # tl (collapseDots (c # s))"
  by (cases s) auto

lemma adjacentDots_Cons: "adjacentDots s \<Longrightarrow> adjacentDots (c # s)"
  by (cases s) auto

lemma collapseDots_fixed: "\<not> adjacentDots s \<Longrightarrow> collapseDots s = s"
  by (induction s rule: collapseDots.induct) auto

lemma collapseDots_length: "length (collapseDots s) \<le> length s"
  by (induction s rule: collapseDots.induct) auto

lemma collapseDots_changes: "adjacentDots s \<Longrightarrow> length (collapseDots s) < length s"
proof (induction s rule: collapseDots.induct)
  case (1 a b r)
  then show ?case
    using collapseDots_length [of r] by (auto simp: less_Suc_eq_le)
qed simp_all

text \<open>Without a run of three dots, one pass leaves no pair of dots.\<close>

lemma no_triple_no_adjacent: "\<not> tripleDots s \<Longrightarrow> \<not> adjacentDots (collapseDots s)"
proof (induction s rule: collapseDots.induct)
  case (1 a b r)
  show ?case
  proof (cases "a = dot \<and> b = dot")
    case True
    note ab = this
    show ?thesis
    proof (cases r)
      case Nil
      with ab show ?thesis by simp
    next
      case (Cons c r')
      with ab 1(3) have c: "c \<noteq> dot" and nt: "\<not> tripleDots (dot # c # r')"
        by auto
      from nt have "\<not> tripleDots r"
        using Cons by (cases r') auto
      with 1(1) ab have "\<not> adjacentDots (collapseDots r)"
        by simp
      moreover have "collapseDots r = c # tl (collapseDots r)"
        unfolding Cons by (rule collapseDots_head)
      ultimately show ?thesis
        using ab c by (metis adjacentDots.simps(1) collapseDots.simps(1))
    qed
  next
    case False
    with 1(3) have "\<not> tripleDots (b # r)"
      by (cases r) auto
    with 1(2) False have ih: "\<not> adjacentDots (collapseDots (b # r))"
      by simp
    have "collapseDots (b # r) = b # tl (collapseDots (b # r))"
      by (rule collapseDots_head)
    then show ?thesis
      using False ih by (metis adjacentDots.simps(1) collapseDots.simps(1))
  qed
qed simp_all

text \<open>A run of three dots survives one pass as a pair at least.\<close>

lemma triple_adjacent: "tripleDots s \<Longrightarrow> adjacentDots (collapseDots s)"
proof (induction s rule: collapseDots.induct)
  case (1 a b r)
  show ?case
  proof (cases "a = dot \<and> b = dot")
    case True
    note ab = this
    from 1(3) obtain c r' where r: "r = c # r'"
      by (cases r) auto
    show ?thesis
    proof (cases "c = dot")
      case True
      have "collapseDots r = c # tl (collapseDots r)"
        unfolding r by (rule collapseDots_head)
      with True ab show ?thesis
        by (metis adjacentDots.simps(1) collapseDots.simps(1))
    next
      case False
      with 1(3) ab r have "tripleDots r"
        by (cases r') auto
      with 1(1) ab have "adjacentDots (collapseDots r)"
        by simp
      then show ?thesis
        using ab by (simp add: adjacentDots_Cons)
    qed
  next
    case False
    with 1(3) have "tripleDots (b # r)"
      by (cases r) auto
    with 1(2) False have "adjacentDots (collapseDots (b # r))"
      by simp
    moreover from False have "collapseDots (a # b # r) = a # collapseDots (b # r)"
      by auto
    ultimately show ?thesis
      by (simp add: adjacentDots_Cons)
  qed
qed simp_all

lemma collapseRepeatedly_fixed: "collapseDots (collapseRepeatedly s) = collapseRepeatedly s"
proof (induction s rule: collapseRepeatedly.induct)
  case (1 s)
  show ?case
  proof (cases "collapseDots s = s")
    case True
    then show ?thesis
      by (subst (1 2) collapseRepeatedly.simps) simp
  next
    case False
    with 1 show ?thesis
      by (subst (1 2) collapseRepeatedly.simps) simp
  qed
qed

lemma collapseRepeatedly_id: "collapseDots s = s \<Longrightarrow> collapseRepeatedly s = s"
  by (subst collapseRepeatedly.simps) simp

lemma single_pass_enough: "\<not> tripleDots s \<Longrightarrow> collapseDots s = collapseRepeatedly s"
proof -
  assume "\<not> tripleDots s"
  then have "collapseDots (collapseDots s) = collapseDots s"
    by (intro collapseDots_fixed no_triple_no_adjacent)
  then have "collapseRepeatedly (collapseDots s) = collapseDots s"
    by (rule collapseRepeatedly_id)
  then show "collapseDots s = collapseRepeatedly s"
    by (subst collapseRepeatedly.simps) simp
qed

lemma single_pass_short: "tripleDots s \<Longrightarrow> collapseDots s \<noteq> collapseRepeatedly s"
proof
  assume t: "tripleDots s" and eq: "collapseDots s = collapseRepeatedly s"
  from t have "adjacentDots (collapseDots s)"
    by (rule triple_adjacent)
  then have "length (collapseDots (collapseDots s)) < length (collapseDots s)"
    by (rule collapseDots_changes)
  with eq show False
    by (simp add: collapseRepeatedly_fixed)
qed

text \<open>
  C4, as the specification states it: for every path, the single collapse pass of the
  normaliser gives the name that collapsing until no pair of dots is left would give, and
  the normalised name has no two adjacent dots. It fails on a name with three dots in a
  row: \<open>a...b\<close> is normalised to \<open>a..b\<close>, where repeated collapsing gives \<open>a.b\<close>.
\<close>

theorem C4_three_dots_counterexample:
  "normalizeAssetName asciiNFD (js ''a...b'') = js ''a..b''
   \<and> normalizeRepeatedly asciiNFD (js ''a...b'') = js ''a.b''
   \<and> adjacentDots (js ''a..b'')
   \<and> getAssetNameSpec Posix (js ''bundle/a...b'') = js ''a...b''"
  by code_simp

text \<open>
  C4, amended: the single collapse pass gives the same name as collapsing repeatedly, and
  leaves no two adjacent dots, exactly when the trimmed name with its spaces and brackets
  replaced has no run of three or more dots; the normalised name then has no adjacent dots
  whenever decomposition and mark stripping leave the collapsed name as it is. With a
  run of three or more dots the pass leaves adjacent dots and differs from the repeated
  collapse.
\<close>

theorem C4_single_pass:
  "(\<not> tripleDots (replaceBrackets (trim asset)) \<longrightarrow>
      normalizeAssetName nfd asset = normalizeRepeatedly nfd asset
      \<and> \<not> adjacentDots (collapseDots (replaceBrackets (trim asset)))
      \<and> (stripMarks (nfd (collapseDots (replaceBrackets (trim asset))))
             = collapseDots (replaceBrackets (trim asset))
           \<longrightarrow> \<not> adjacentDots (normalizeAssetName nfd asset)))
   \<and> (tripleDots (replaceBrackets (trim asset)) \<longrightarrow>
      adjacentDots (collapseDots (replaceBrackets (trim asset)))
      \<and> collapseDots (replaceBrackets (trim asset))
          \<noteq> collapseRepeatedly (replaceBrackets (trim asset)))"
proof (intro conjI impI)
  assume nt: "\<not> tripleDots (replaceBrackets (trim asset))"
  then show "normalizeAssetName nfd asset = normalizeRepeatedly nfd asset"
    by (simp add: normalizeAssetName_def normalizeRepeatedly_def single_pass_enough)
  from nt show na: "\<not> adjacentDots (collapseDots (replaceBrackets (trim asset)))"
    by (rule no_triple_no_adjacent)
  assume "stripMarks (nfd (collapseDots (replaceBrackets (trim asset))))
            = collapseDots (replaceBrackets (trim asset))"
  with na show "\<not> adjacentDots (normalizeAssetName nfd asset)"
    by (simp add: normalizeAssetName_def)
next
  assume t: "tripleDots (replaceBrackets (trim asset))"
  then show "adjacentDots (collapseDots (replaceBrackets (trim asset)))"
    by (rule triple_adjacent)
  from t show "collapseDots (replaceBrackets (trim asset))
                 \<noteq> collapseRepeatedly (replaceBrackets (trim asset))"
    by (rule single_pass_short)
qed

theorem C4_single_pass_witness:
  "\<not> tripleDots (replaceBrackets (trim (js ''My App (x64).msi'')))
   \<and> stripMarks (asciiNFD (collapseDots (replaceBrackets (trim (js ''My App (x64).msi'')))))
       = collapseDots (replaceBrackets (trim (js ''My App (x64).msi'')))
   \<and> normalizeAssetName asciiNFD (js ''My App (x64).msi'')
       = normalizeRepeatedly asciiNFD (js ''My App (x64).msi'')
   \<and> \<not> adjacentDots (normalizeAssetName asciiNFD (js ''My App (x64).msi''))
   \<and> tripleDots (replaceBrackets (trim (js ''a...b'')))
   \<and> adjacentDots (collapseDots (replaceBrackets (trim (js ''a...b''))))
   \<and> collapseDots (replaceBrackets (trim (js ''a...b'')))
       \<noteq> collapseRepeatedly (replaceBrackets (trim (js ''a...b'')))"
proof -
  have h1: "\<not> tripleDots (replaceBrackets (trim (js ''My App (x64).msi'')))"
    by code_simp
  have h2: "stripMarks (asciiNFD (collapseDots (replaceBrackets (trim (js ''My App (x64).msi'')))))
       = collapseDots (replaceBrackets (trim (js ''My App (x64).msi'')))"
    by code_simp
  have h3: "tripleDots (replaceBrackets (trim (js ''a...b'')))"
    by code_simp
  show ?thesis
    using h1 h2 h3 C4_single_pass [of "js ''My App (x64).msi''" asciiNFD]
      C4_single_pass [of "js ''a...b''" asciiNFD]
    by blast
qed

section \<open>The signature selector\<close>

lemma upt_four: "[0 ..< 4] = [0, 1, 2, Suc 2]"
  by (simp add: upt_rec)

lemma signaturePriority_score: "signaturePriority preferNsis p = score preferNsis p"
  by (cases preferNsis) (simp_all add: signaturePriority_def score_def priorities_def upt_four)

text \<open>The comparator sort of the source is the library's stable sort by negated score.\<close>

lemma insertBy_insort:
  "insertBy (comparePriority preferNsis) x ys
     = insort_key (\<lambda>a. - score preferNsis (path a)) x ys"
  by (induction ys) (simp_all add: comparePriority_def signaturePriority_score)

lemma sortSignatureFiles_sort_key:
  "sortSignatureFiles preferNsis xs = sort_key (\<lambda>a. - score preferNsis (path a)) xs"
  by (induction xs) (simp_all add: sortSignatureFiles_def sortBy_def insertBy_insort)

lemma hd_insort_key:
  "hd (insort_key f x ys) = (if ys = [] \<or> f x \<le> f (hd ys) then x else hd ys)"
  by (cases ys) auto

text \<open>The head of a stable sort is the first element of the input with the least key.\<close>

lemma hd_sort_key_first_min:
  "xs \<noteq> [] \<Longrightarrow>
     \<exists>pre post. xs = pre @ hd (sort_key f xs) # post
        \<and> (\<forall>a \<in> set pre. f (hd (sort_key f xs)) < f a)
        \<and> (\<forall>a \<in> set post. f (hd (sort_key f xs)) \<le> f a)"
proof (induction xs)
  case Nil
  then show ?case by simp
next
  case (Cons x xs)
  show ?case
  proof (cases "xs = []")
    case True
    have "[x] = [] @ x # []"
      by simp
    then show ?thesis
      unfolding True by (intro exI [of _ "[]"]) simp
  next
    case False
    let ?w = "hd (sort_key f xs)"
    from Cons.IH [OF False] obtain pre post where
      xs: "xs = pre @ ?w # post" and
      pre: "\<forall>a \<in> set pre. f ?w < f a" and
      post: "\<forall>a \<in> set post. f ?w \<le> f a"
      by blast
    have ne: "sort_key f xs \<noteq> []"
      using False by (metis length_sort list.size(3) length_0_conv)
    have all: "\<forall>a \<in> set xs. f ?w \<le> f a"
    proof
      fix a
      assume "a \<in> set xs"
      then have "a \<in> set pre \<or> a = ?w \<or> a \<in> set post"
        by (subst (asm) xs) auto
      with pre post show "f ?w \<le> f a"
        by auto
    qed
    show ?thesis
    proof (cases "f x \<le> f ?w")
      case True
      then have h: "hd (sort_key f (x # xs)) = x"
        by (simp add: hd_insort_key)
      have "x # xs = [] @ x # xs"
        by simp
      moreover have "\<forall>a \<in> set xs. f x \<le> f a"
        using all True by auto
      ultimately show ?thesis
        unfolding h by (metis empty_iff empty_set)
    next
      case False
      then have h: "hd (sort_key f (x # xs)) = ?w"
        using ne by (simp add: hd_insort_key)
      have "x # xs = (x # pre) @ ?w # post"
        using xs by simp
      moreover have "\<forall>a \<in> set (x # pre). f ?w < f a"
        using pre False by auto
      ultimately show ?thesis
        unfolding h using post by blast
    qed
  qed
qed

lemma selectSignature_hd:
  "xs \<noteq> [] \<Longrightarrow>
     selectSignature preferNsis xs = Some (hd (sortSignatureFiles preferNsis xs))"
proof -
  assume "xs \<noteq> []"
  then have "sortSignatureFiles preferNsis xs \<noteq> []"
    unfolding sortSignatureFiles_sort_key by (metis length_sort list.size(3) length_0_conv)
  then show ?thesis
    by (cases "sortSignatureFiles preferNsis xs") (simp_all add: selectSignature_def)
qed

lemma sortSignatureFiles_descending:
  "sorted_wrt (\<lambda>a b. score preferNsis (path b) \<le> score preferNsis (path a))
     (sortSignatureFiles preferNsis xs)"
proof -
  have "sorted (map (\<lambda>a. - score preferNsis (path a)) (sortSignatureFiles preferNsis xs))"
    unfolding sortSignatureFiles_sort_key by (rule sorted_sort_key)
  then show ?thesis
    by (simp add: sorted_map)
qed

lemma sortSignatureFiles_stable:
  "filter (\<lambda>a. score preferNsis (path a) = k) (sortSignatureFiles preferNsis xs)
     = filter (\<lambda>a. score preferNsis (path a) = k) xs"
proof -
  have "(\<lambda>a. score preferNsis (path a) = k) = (\<lambda>a. - score preferNsis (path a) = - k)"
    by auto
  then show ?thesis
    unfolding sortSignatureFiles_sort_key
    using sort_key_stable [of "\<lambda>a. - score preferNsis (path a)" "- k" xs] by simp
qed

lemma winner_first_best:
  assumes "xs \<noteq> []"
  shows "\<exists>pre post. xs = pre @ hd (sortSignatureFiles preferNsis xs) # post
     \<and> (\<forall>a \<in> set pre. score preferNsis (path a)
            < score preferNsis (path (hd (sortSignatureFiles preferNsis xs))))
     \<and> (\<forall>a \<in> set post. score preferNsis (path a)
            \<le> score preferNsis (path (hd (sortSignatureFiles preferNsis xs))))"
  using hd_sort_key_first_min [OF assms, of "\<lambda>a. - score preferNsis (path a)"]
  unfolding sortSignatureFiles_sort_key by simp

text \<open>
  C3: for a non-empty list of matched signature files and a fixed \<open>preferNsis\<close>, the
  winner is the first element of the list sorted by descending score, the sort being
  stable: the sorted list is the stable sort of the input by negated score, its scores
  descend, and elements of equal score keep their input order, so the winner is the first
  element of the input whose score is greatest. The score is that of the specification,
  100 minus the index of the first suffix of the active priority list that the local path
  (not the asset name) ends with, or 0, over the two priority lists as stated.
\<close>

theorem C3_winner:
  assumes "signatureFiles \<noteq> []"
  shows "\<exists>winner pre post.
      selectSignature preferNsis signatureFiles = Some winner
    \<and> winner = hd (sortSignatureFiles preferNsis signatureFiles)
    \<and> sortSignatureFiles preferNsis signatureFiles
        = sort_key (\<lambda>a. - score preferNsis (path a)) signatureFiles
    \<and> sorted_wrt (\<lambda>a b. score preferNsis (path b) \<le> score preferNsis (path a))
        (sortSignatureFiles preferNsis signatureFiles)
    \<and> (\<forall>k. filter (\<lambda>a. score preferNsis (path a) = k)
               (sortSignatureFiles preferNsis signatureFiles)
             = filter (\<lambda>a. score preferNsis (path a) = k) signatureFiles)
    \<and> signatureFiles = pre @ winner # post
    \<and> (\<forall>a \<in> set pre. score preferNsis (path a) < score preferNsis (path winner))
    \<and> (\<forall>a \<in> set post. score preferNsis (path a) \<le> score preferNsis (path winner))
    \<and> (\<forall>p. signaturePriority preferNsis p = score preferNsis p)
    \<and> priorities True
        = [js ''.nsis.zip.sig'', js ''.exe.sig'', js ''.msi.zip.sig'', js ''.msi.sig'']
    \<and> priorities False
        = [js ''.msi.zip.sig'', js ''.msi.sig'', js ''.nsis.zip.sig'', js ''.exe.sig'']"
proof -
  from winner_first_best [OF assms, of preferNsis] obtain pre post where
    split: "signatureFiles = pre @ hd (sortSignatureFiles preferNsis signatureFiles) # post"
    and pre: "\<forall>a \<in> set pre. score preferNsis (path a)
            < score preferNsis (path (hd (sortSignatureFiles preferNsis signatureFiles)))"
    and post: "\<forall>a \<in> set post. score preferNsis (path a)
            \<le> score preferNsis (path (hd (sortSignatureFiles preferNsis signatureFiles)))"
    by blast
  have prios: "priorities True
        = [js ''.nsis.zip.sig'', js ''.exe.sig'', js ''.msi.zip.sig'', js ''.msi.sig'']"
    "priorities False
        = [js ''.msi.zip.sig'', js ''.msi.sig'', js ''.nsis.zip.sig'', js ''.exe.sig'']"
    by (simp_all add: priorities_def)
  show ?thesis
    using selectSignature_hd [OF assms, of preferNsis] split pre post prios
      sortSignatureFiles_sort_key [of preferNsis signatureFiles]
      sortSignatureFiles_descending [of preferNsis signatureFiles]
      sortSignatureFiles_stable [of preferNsis _ signatureFiles]
      signaturePriority_score [of preferNsis]
    by (intro exI [of _ "hd (sortSignatureFiles preferNsis signatureFiles)"]
          exI [of _ pre] exI [of _ post]) (simp only: simp_thms)
qed

theorem C3_winner_witness:
  "[exeSig, msiSig, nsisZipSig] \<noteq> []
   \<and> selectSignature False [exeSig, msiSig, nsisZipSig] = Some msiSig
   \<and> selectSignature True [exeSig, msiSig, nsisZipSig] = Some nsisZipSig
   \<and> (\<exists>pre post. [exeSig, msiSig, nsisZipSig] = pre @ msiSig # post
        \<and> (\<forall>a \<in> set pre. score False (path a) < score False (path msiSig))
        \<and> (\<forall>a \<in> set post. score False (path a) \<le> score False (path msiSig)))"
proof -
  have ne: "[exeSig, msiSig, nsisZipSig] \<noteq> []"
    by simp
  have f: "selectSignature False [exeSig, msiSig, nsisZipSig] = Some msiSig"
    by code_simp
  have t: "selectSignature True [exeSig, msiSig, nsisZipSig] = Some nsisZipSig"
    by code_simp
  from C3_winner [OF ne, of False] f show ?thesis
    using t by auto
qed

section \<open>The URL rewriter\<close>

text \<open>What a match of the pattern is: the leftmost such segment of the URL.\<close>

lemma matchUntagged_Some:
  "matchUntagged s = Some (g, post) \<Longrightarrow>
     \<exists>seg. seg \<noteq> [] \<and> slash \<notin> set seg \<and> g = js ''untagged-'' @ seg
        \<and> s = js ''/download/'' @ g @ js ''/'' @ post"
proof -
  assume a: "matchUntagged s = Some (g, post)"
  define t where "t = drop (length (js ''/download/untagged-'')) s"
  define seg where "seg = takeWhile (\<lambda>c. c \<noteq> slash) t"
  define r where "r = drop (length seg) t"
  from a have st: "startsWith s (js ''/download/untagged-'')"
    by (auto simp: matchUntagged_def split: if_splits)
  with a have ne: "seg \<noteq> []" "r \<noteq> []" and g: "g = js ''untagged-'' @ seg" and post: "post = tl r"
    by (auto simp: matchUntagged_def Let_def t_def seg_def r_def split: if_splits)
  have s: "s = js ''/download/untagged-'' @ t"
    using st unfolding startsWith_def t_def by (metis append_take_drop_id)
  have t: "t = seg @ r"
    unfolding r_def seg_def by (metis takeWhile_eq_take append_take_drop_id)
  have "r = dropWhile (\<lambda>c. c \<noteq> slash) t"
    unfolding r_def seg_def by (simp add: dropWhile_eq_drop)
  with ne have "hd r = slash"
    using hd_dropWhile [of "\<lambda>c. c \<noteq> slash" t] by simp
  with ne have r: "r = slash # post"
    unfolding post by (cases r) simp_all
  have ns: "slash \<notin> set seg"
    unfolding seg_def by (auto dest: set_takeWhileD)
  have "s = js ''/download/untagged-'' @ seg @ slash # post"
    using s t r by simp
  also have "\<dots> = js ''/download/'' @ g @ js ''/'' @ post"
    unfolding g by (simp add: js_def slash_def)
  finally show ?thesis
    using ne ns g by blast
qed

lemma execUntagged_Some:
  "execUntagged acc s = Some (pre, m, g, post) \<Longrightarrow>
     acc @ s = pre @ m @ post \<and> m = js ''/download/'' @ g @ js ''/''
     \<and> (\<exists>seg. seg \<noteq> [] \<and> slash \<notin> set seg \<and> g = js ''untagged-'' @ seg)"
proof (induction acc s rule: execUntagged.induct)
  case (1 preceding)
  then show ?case by simp
next
  case (2 preceding c s)
  show ?case
  proof (cases "matchUntagged (c # s)")
    case None
    with 2 show ?thesis by simp
  next
    case (Some a)
    obtain g' post' where a: "a = (g', post')" by (cases a)
    from "2.prems" Some a have eq: "pre = preceding" "m = js ''/download/'' @ g' @ js ''/''"
      "g = g'" "post = post'"
      by auto
    from matchUntagged_Some [OF Some [unfolded a]] obtain seg where
      "seg \<noteq> []" "slash \<notin> set seg" "g' = js ''untagged-'' @ seg"
      "c # s = js ''/download/'' @ g' @ js ''/'' @ post'" by blast
    then show ?thesis unfolding eq by auto
  qed
qed

text \<open>A URL that holds such a segment has a match.\<close>

lemma matchUntagged_segment:
  assumes "seg \<noteq> []" and "slash \<notin> set seg"
  shows "matchUntagged (js ''/download/untagged-'' @ seg @ slash # post)
           = Some (js ''untagged-'' @ seg, post)"
proof -
  have tw: "takeWhile (\<lambda>c. c \<noteq> slash) (seg @ slash # post) = seg"
    using assms(2) by (induction seg) auto
  show ?thesis
    using assms(1) by (simp add: matchUntagged_def startsWith_def Let_def tw)
qed

lemma execUntagged_finds:
  assumes "seg \<noteq> []" and "slash \<notin> set seg"
  shows "execUntagged acc (pre @ js ''/download/untagged-'' @ seg @ slash # post) \<noteq> None"
proof (induction pre arbitrary: acc)
  case Nil
  have "js ''/download/untagged-'' @ seg @ slash # post \<noteq> []"
    by (simp add: js_def)
  then obtain c s where cs: "js ''/download/untagged-'' @ seg @ slash # post = c # s"
    by (cases "js ''/download/untagged-'' @ seg @ slash # post") auto
  from matchUntagged_segment [OF assms, of post] show ?case
    unfolding append_Nil cs by simp
next
  case (Cons c pre)
  show ?case
  proof (cases "matchUntagged (c # pre @ js ''/download/untagged-'' @ seg @ slash # post)")
    case None
    with Cons.IH [of "acc @ [c]"] show ?thesis
      by simp
  next
    case (Some a)
    then show ?thesis
      by (cases a) simp
  qed
qed

text \<open>A replacement string without a dollar is inserted as it is.\<close>

lemma getSubstitution_plain:
  "0x24 \<notin> set t \<Longrightarrow> getSubstitution m pre post g t = t"
proof (induction m pre post g t rule: getSubstitution.induct)
  case (3 m pre post g c d t)
  from "3.prems" have c: "c \<noteq> 0x24" and rest: "0x24 \<notin> set (d # t)"
    by auto
  from "3.IH"(1) [OF c rest] c show ?case
    by (simp only: getSubstitution.simps if_True if_False simp_thms)
qed simp_all

lemma replacement_plain: "0x24 \<notin> set tagName \<Longrightarrow> 0x24 \<notin> set (replacement tagName)"
  by (auto simp: replacement_def js_def)

lemma rewriteUntagged_plain_tag:
  "0x24 \<notin> set tagName \<Longrightarrow>
     rewriteUntagged u tagName =
       (case execUntagged [] u of
          None \<Rightarrow> u
        | Some (pre, m, g, post) \<Rightarrow> pre @ replacement tagName @ post)"
  by (simp add: rewriteUntagged_def getSubstitution_plain replacement_plain split: option.splits)

text \<open>
  C5, at a tag name the claim fails on: with the tag \<open>v$&\<close> the untagged segment is not
  replaced with \<open>/download/v$&/\<close>; the two code units after \<open>v\<close> are expanded to the
  matched segment.
\<close>

theorem C5_dollar_tag:
  "rewriteUntagged (js ''https://host/download/untagged-abc123/file.zip'') (js ''v$&'')
     = js ''https://host/download/v/download/untagged-abc123//file.zip''
   \<and> rewriteUntagged (js ''https://host/download/untagged-abc123/file.zip'') (js ''v$&'')
     \<noteq> js ''https://host/download/v$&/file.zip''"
  by code_simp

section \<open>The companion artifact\<close>

lemma sig_chars: "js ''.sig'' = [dot, 0x73, 0x69, 0x67]"
  by (simp add: js_def dot_def)

lemma sig_no_separator: "c \<in> set (js ''.sig'') \<Longrightarrow> \<not> isPathSeparator fl c"
  by (auto simp: js_def isPathSeparator_def)

lemma lastComponent_plain:
  assumes "\<forall>c \<in> set p. \<not> isPathSeparator fl c" and "driveLength fl p = 0"
  shows "lastComponent fl p = p"
proof -
  have "\<forall>c \<in> set (rev p). \<not> isPathSeparator fl c"
    using assms(1) by simp
  then have d: "dropWhile (isPathSeparator fl) (rev p) = rev p"
    by (metis dropWhile_eq_self_iff list.set_sel(1) rev_is_Nil_conv set_rev)
  have tw: "takeWhile (\<lambda>c. \<not> isPathSeparator fl c) (rev p) = rev p"
    using assms(1) by (simp add: takeWhile_eq_all_conv)
  show ?thesis
    unfolding lastComponent_def assms(2) drop_0 d tw by (rule rev_rev_ident)
qed

lemma extname_sig:
  assumes "\<forall>c \<in> set stem. \<not> isPathSeparator fl c" and "stem \<noteq> []"
    and "driveLength fl (stem @ js ''.sig'') = 0"
  shows "extname fl (stem @ js ''.sig'') = js ''.sig''"
proof -
  have c: "lastComponent fl (stem @ js ''.sig'') = stem @ js ''.sig''"
    using assms(1,3) sig_no_separator by (intro lastComponent_plain) auto
  have e: "rev (takeWhile (\<lambda>x. x \<noteq> dot) (rev (stem @ js ''.sig''))) = [0x73, 0x69, 0x67]"
    by (simp add: sig_chars dot_def)
  have "stem @ js ''.sig'' \<noteq> [dot, dot]"
    by (simp add: sig_chars)
  moreover have "dot \<in> set (stem @ js ''.sig'')"
    by (simp add: sig_chars)
  ultimately show ?thesis
    using assms(2) by (simp add: extname_def c e Let_def) (simp add: sig_chars dot_def)
qed

lemma updaterName_sig:
  assumes "\<forall>c \<in> set stem. \<not> isPathSeparator fl c" and "stem \<noteq> []"
    and "driveLength fl (stem @ js ''.sig'') = 0"
  shows "basename fl (stem @ js ''.sig'') (extname fl (stem @ js ''.sig'')) = stem"
proof -
  have c: "lastComponent fl (stem @ js ''.sig'') = stem @ js ''.sig''"
    using assms(1,3) sig_no_separator by (intro lastComponent_plain) auto
  have l: "length (js ''.sig'') = 4" by (simp add: js_def)
  show ?thesis
    using assms(2)
    by (simp add: extname_sig [OF assms] basename_def c Let_def endsWith_def l)
qed

lemma companionUrl_matched:
  assumes "\<forall>a \<in> set filteredAssets. downloadUrl a \<noteq> []"
  shows "companionUrl fl filteredAssets signatureFile
           = map_option downloadUrl (companion fl filteredAssets signatureFile)"
proof (cases "companion fl filteredAssets signatureFile")
  case None
  then show ?thesis
    by (simp add: companionUrl_def)
next
  case (Some a)
  then have "a \<in> set filteredAssets"
    unfolding companion_def by (auto simp: find_Some_iff)
  with assms Some show ?thesis
    by (simp add: companionUrl_def)
qed

text \<open>
  C9, as stated: the companion is found under the winner's asset name without its
  trailing \<open>.sig\<close>. It fails for a winner whose name is \<open>.sig\<close> alone: \<open>extname\<close>
  gives such a name no extension, nothing is stripped, and the signature file is chosen
  as its own companion.
\<close>

theorem C9_bare_sig_counterexample:
  "selectSignature False (signatureFilesOf [bareSig]) = Some bareSig
   \<and> assetName bareSig = js ''.sig''
   \<and> updaterNameOf Posix bareSig = js ''.sig''
   \<and> companion Posix [bareSig] bareSig = Some bareSig
   \<and> companionUrl Posix [bareSig] bareSig = Some (js ''https://host/download/v1/.sig'')"
  by code_simp

text \<open>
  C9, amended: when the winner's asset name is a non-empty stem followed by \<open>.sig\<close>,
  the stem holding no path separator (and the name, on Windows, no drive prefix), the
  companion is looked up under the stem: it is the first matched asset whose asset name
  equals the stem, an asset of any other name is never chosen, and no asset is chosen
  exactly when none has that name. Its download URL is the one the manifest advertises.
\<close>

theorem C9_companion:
  assumes "assetName signatureFile = stem @ js ''.sig''"
    and "stem \<noteq> []"
    and "\<forall>c \<in> set stem. \<not> isPathSeparator fl c"
    and "driveLength fl (assetName signatureFile) = 0"
  shows "updaterNameOf fl signatureFile = stem
    \<and> companion fl filteredAssets signatureFile
        = List.find (\<lambda>a. assetName a = stem) filteredAssets
    \<and> (\<forall>a. companion fl filteredAssets signatureFile = Some a \<longrightarrow>
          assetName a = stem
          \<and> (\<exists>i < length filteredAssets. filteredAssets ! i = a
                \<and> (\<forall>j < i. assetName (filteredAssets ! j) \<noteq> stem)))
    \<and> ((companion fl filteredAssets signatureFile = None)
          = (stem \<notin> assetName ` set filteredAssets))
    \<and> ((\<forall>a \<in> set filteredAssets. downloadUrl a \<noteq> []) \<longrightarrow>
          companionUrl fl filteredAssets signatureFile
            = map_option downloadUrl (companion fl filteredAssets signatureFile))"
proof -
  have name: "updaterNameOf fl signatureFile = stem"
    unfolding updaterNameOf_def assms(1)
    using assms(2,3) assms(4) [unfolded assms(1)] by (intro updaterName_sig)
  have comp: "companion fl filteredAssets signatureFile
        = List.find (\<lambda>a. assetName a = stem) filteredAssets"
    by (simp add: companion_def name)
  have first: "\<forall>a. companion fl filteredAssets signatureFile = Some a \<longrightarrow>
          assetName a = stem
          \<and> (\<exists>i < length filteredAssets. filteredAssets ! i = a
                \<and> (\<forall>j < i. assetName (filteredAssets ! j) \<noteq> stem))"
    unfolding comp by (auto simp: find_Some_iff)
  have none: "(companion fl filteredAssets signatureFile = None)
          = (stem \<notin> assetName ` set filteredAssets)"
    unfolding comp by (auto simp: find_None_iff)
  show ?thesis
    using name comp first none companionUrl_matched [of filteredAssets fl signatureFile]
    by blast
qed

theorem C9_companion_witness:
  "assetName msiZipSig = js ''app.msi.zip'' @ js ''.sig''
   \<and> js ''app.msi.zip'' \<noteq> []
   \<and> list_all (\<lambda>c. \<not> isPathSeparator Win32 c) (js ''app.msi.zip'')
   \<and> driveLength Win32 (assetName msiZipSig) = 0
   \<and> updaterNameOf Win32 msiZipSig = js ''app.msi.zip''
   \<and> companion Win32 [msi, msiZip, msiZipSig] msiZipSig = Some msiZip
   \<and> companion Win32 [msi, msiZipSig] msiZipSig = None"
proof -
  have h1: "assetName msiZipSig = js ''app.msi.zip'' @ js ''.sig''"
    by code_simp
  have h2: "js ''app.msi.zip'' \<noteq> []"
    by code_simp
  have h3: "\<forall>c \<in> set (js ''app.msi.zip''). \<not> isPathSeparator Win32 c"
    by code_simp
  then have h3': "list_all (\<lambda>c. \<not> isPathSeparator Win32 c) (js ''app.msi.zip'')"
    by (simp only: list_all_iff)
  have h4: "driveLength Win32 (assetName msiZipSig) = 0"
    by code_simp
  have f1: "List.find (\<lambda>a. assetName a = js ''app.msi.zip'') [msi, msiZip, msiZipSig]
              = Some msiZip"
    by code_simp
  have f2: "List.find (\<lambda>a. assetName a = js ''app.msi.zip'') [msi, msiZipSig] = None"
    by code_simp
  note found = C9_companion [OF h1 h2 h3 h4, of "[msi, msiZip, msiZipSig]"]
  note missing = C9_companion [OF h1 h2 h3 h4, of "[msi, msiZipSig]"]
  from found have a: "updaterNameOf Win32 msiZipSig = js ''app.msi.zip''"
    by (rule conjunct1)
  from found have "companion Win32 [msi, msiZip, msiZipSig] msiZipSig
      = List.find (\<lambda>a. assetName a = js ''app.msi.zip'') [msi, msiZip, msiZipSig]"
    by (elim conjE)
  then have b: "companion Win32 [msi, msiZip, msiZipSig] msiZipSig = Some msiZip"
    using f1 by (rule trans)
  from missing have "companion Win32 [msi, msiZipSig] msiZipSig
      = List.find (\<lambda>a. assetName a = js ''app.msi.zip'') [msi, msiZipSig]"
    by (elim conjE)
  then have c: "companion Win32 [msi, msiZipSig] msiZipSig = None"
    using f2 by (rule trans)
  show ?thesis
    by (intro conjI h1 h2 h3' h4 a b c)
qed

section \<open>The manifest merger\<close>

lemma update_absent: "map_of ps k = None \<Longrightarrow> AList.update k v ps = ps @ [(k, v)]"
  by (induction ps) (auto split: if_splits)

lemma darwin_keys_distinct:
  "js ''darwin-aarch64'' \<noteq> js ''darwin-x86_64''"
  "js ''darwin-aarch64'' \<noteq> js ''darwin-universal''"
  "js ''darwin-x86_64'' \<noteq> js ''darwin-universal''"
  by (simp_all add: js_def)

lemma platformKey_universal: "platformKey (js ''darwin'') (js ''universal'') = js ''darwin-universal''"
  by (simp add: platformKey_def js_def)

lemma assignEntry_read:
  "files w p = Some s \<Longrightarrow>
     assignEntry w k p u ps = Inr (AList.update k \<lparr>signature = s, url = u\<rparr> ps)"
  by (simp add: assignEntry_def readFileSync_def)

lemma assignIfAbsent_read:
  "files w p = Some s \<Longrightarrow>
     assignIfAbsent w k p u ps
       = Inr (ps @ (if map_of ps k = None then [(k, \<lparr>signature = s, url = u\<rparr>)] else []))"
  by (simp add: assignIfAbsent_def assignEntry_read update_absent)


lemma universalWrites_read:
  assumes "files w p = Some s"
  shows "universalWrites w p u ps
     = Inr (ps @ (if map_of ps (js ''darwin-aarch64'') = None
                  then [(js ''darwin-aarch64'', \<lparr>signature = s, url = u\<rparr>)] else [])
               @ (if map_of ps (js ''darwin-x86_64'') = None
                  then [(js ''darwin-x86_64'', \<lparr>signature = s, url = u\<rparr>)] else []))"
  using darwin_keys_distinct(1)
  by (auto simp: universalWrites_def assignIfAbsent_read [OF assms] map_add_def
      split: option.splits)


lemma no_darwin_absent:
  assumes "\<forall>k \<in> fst ` set ps. \<not> startsWith k (js ''darwin-'')"
  shows "map_of ps (js ''darwin-aarch64'') = None" "map_of ps (js ''darwin-x86_64'') = None"
    "map_of ps (js ''darwin-universal'') = None"
proof -
  have "startsWith (js ''darwin-aarch64'') (js ''darwin-'')"
    "startsWith (js ''darwin-x86_64'') (js ''darwin-'')"
    "startsWith (js ''darwin-universal'') (js ''darwin-'')"
    by (simp_all add: startsWith_def js_def)
  with assms have "js ''darwin-aarch64'' \<notin> fst ` set ps" "js ''darwin-x86_64'' \<notin> fst ` set ps"
    "js ''darwin-universal'' \<notin> fst ` set ps"
    by blast+
  then show "map_of ps (js ''darwin-aarch64'') = None" "map_of ps (js ''darwin-x86_64'') = None"
    "map_of ps (js ''darwin-universal'') = None"
    by (simp_all add: map_of_eq_None_iff)
qed

lemma writePlatforms_universal:
  "writePlatforms w False (js ''darwin'') (js ''universal'') p u ps = universalWrites w p u ps"
  by (simp add: writePlatforms_def split: sum.splits)

text \<open>
  C2, amended: with resolved OS \<open>darwin\<close>, resolved arch \<open>universal\<close> and
  \<open>keepUniversal\<close> false, a manifest without darwin entries gains exactly the keys
  \<open>darwin-aarch64\<close> and \<open>darwin-x86_64\<close>, in this order, both with the content of the
  winning signature file and the rewritten URL, and no \<open>darwin-universal\<close> key; a
  manifest that has \<open>darwin-aarch64\<close> keeps that entry unchanged, and
  \<open>darwin-x86_64\<close> is written when it is absent and left as it is when it is present
  too.
\<close>

theorem C2_universal:
  assumes "resolveOs targetInfo = js ''darwin''"
    and "resolveArch a = js ''universal''"
    and "files w sigPath = Some s"
  shows "((\<forall>k \<in> fst ` set ps. \<not> startsWith k (js ''darwin-'')) \<longrightarrow>
        writePlatforms w False (resolveOs targetInfo) (resolveArch a) sigPath u ps
          = Inr (ps @ [(js ''darwin-aarch64'', \<lparr>signature = s, url = u\<rparr>),
                       (js ''darwin-x86_64'', \<lparr>signature = s, url = u\<rparr>)])
        \<and> js ''darwin-universal''
            \<notin> fst ` set (ps @ [(js ''darwin-aarch64'', \<lparr>signature = s, url = u\<rparr>),
                                (js ''darwin-x86_64'', \<lparr>signature = s, url = u\<rparr>)]))
    \<and> (\<forall>old. map_of ps (js ''darwin-aarch64'') = Some old \<longrightarrow>
          (\<exists>ps'. writePlatforms w False (resolveOs targetInfo) (resolveArch a) sigPath u ps
                   = Inr ps'
             \<and> map_of ps' (js ''darwin-aarch64'') = Some old
             \<and> (map_of ps (js ''darwin-x86_64'') = None \<longrightarrow>
                  ps' = ps @ [(js ''darwin-x86_64'', \<lparr>signature = s, url = u\<rparr>)])
             \<and> (map_of ps (js ''darwin-x86_64'') \<noteq> None \<longrightarrow> ps' = ps)))"
proof (intro conjI impI allI)
  assume nd: "\<forall>k \<in> fst ` set ps. \<not> startsWith k (js ''darwin-'')"
  show "writePlatforms w False (resolveOs targetInfo) (resolveArch a) sigPath u ps
          = Inr (ps @ [(js ''darwin-aarch64'', \<lparr>signature = s, url = u\<rparr>),
                       (js ''darwin-x86_64'', \<lparr>signature = s, url = u\<rparr>)])"
    unfolding assms(1,2) writePlatforms_universal
    by (simp add: universalWrites_read [OF assms(3)] no_darwin_absent [OF nd])
  from no_darwin_absent(3) [OF nd] have "js ''darwin-universal'' \<notin> fst ` set ps"
    by (simp add: map_of_eq_None_iff)
  then show "js ''darwin-universal''
            \<notin> fst ` set (ps @ [(js ''darwin-aarch64'', \<lparr>signature = s, url = u\<rparr>),
                                (js ''darwin-x86_64'', \<lparr>signature = s, url = u\<rparr>)])"
    using darwin_keys_distinct by auto
next
  fix old
  assume old: "map_of ps (js ''darwin-aarch64'') = Some old"
  let ?ps' = "ps @ (if map_of ps (js ''darwin-x86_64'') = None
                  then [(js ''darwin-x86_64'', \<lparr>signature = s, url = u\<rparr>)] else [])"
  have "writePlatforms w False (resolveOs targetInfo) (resolveArch a) sigPath u ps = Inr ?ps'"
    unfolding assms(1,2) writePlatforms_universal
    by (simp add: universalWrites_read [OF assms(3)] old)
  moreover have "map_of ?ps' (js ''darwin-aarch64'') = Some old"
    by (simp add: old map_add_def)
  ultimately show "\<exists>ps'. writePlatforms w False (resolveOs targetInfo) (resolveArch a) sigPath u ps
                   = Inr ps'
             \<and> map_of ps' (js ''darwin-aarch64'') = Some old
             \<and> (map_of ps (js ''darwin-x86_64'') = None \<longrightarrow>
                  ps' = ps @ [(js ''darwin-x86_64'', \<lparr>signature = s, url = u\<rparr>)])
             \<and> (map_of ps (js ''darwin-x86_64'') \<noteq> None \<longrightarrow> ps' = ps)"
    by (intro exI [of _ ?ps']) auto
qed

text \<open>
  C2, as stated: with \<open>darwin-aarch64\<close> in the existing manifest, \<open>darwin-x86_64\<close> is
  still written. It fails when the manifest holds \<open>darwin-x86_64\<close> as well: the guard
  of line 198 leaves that entry as it is, and nothing is written.
\<close>

theorem C2_both_present_counterexample:
  "files macWorld universalSigPath = Some (js ''universal-signature'')
   \<and> writePlatforms macWorld False (resolveOs macTarget) (resolveArch (js ''universal''))
       universalSigPath universalUrl
       [(js ''darwin-aarch64'', nativeEntry), (js ''darwin-x86_64'', intelEntry)]
     = Inr [(js ''darwin-aarch64'', nativeEntry), (js ''darwin-x86_64'', intelEntry)]
   \<and> intelEntry \<noteq> universalEntry"
  by code_simp

theorem C2_universal_witness:
  "resolveOs macTarget = js ''darwin''
   \<and> resolveArch (js ''universal'') = js ''universal''
   \<and> files macWorld universalSigPath = Some (js ''universal-signature'')
   \<and> list_all (\<lambda>k. \<not> startsWith k (js ''darwin-''))
         (map fst [(js ''windows-x86_64'', intelEntry)])
   \<and> writePlatforms macWorld False (resolveOs macTarget) (resolveArch (js ''universal''))
         universalSigPath universalUrl [(js ''windows-x86_64'', intelEntry)]
       = Inr ([(js ''windows-x86_64'', intelEntry)]
              @ [(js ''darwin-aarch64'',
                    \<lparr>signature = js ''universal-signature'', url = universalUrl\<rparr>),
                 (js ''darwin-x86_64'',
                    \<lparr>signature = js ''universal-signature'', url = universalUrl\<rparr>)])
   \<and> map_of [(js ''darwin-aarch64'', nativeEntry)] (js ''darwin-aarch64'') = Some nativeEntry
   \<and> map_of [(js ''darwin-aarch64'', nativeEntry)] (js ''darwin-x86_64'') = None
   \<and> writePlatforms macWorld False (resolveOs macTarget) (resolveArch (js ''universal''))
         universalSigPath universalUrl [(js ''darwin-aarch64'', nativeEntry)]
       = Inr [(js ''darwin-aarch64'', nativeEntry), (js ''darwin-x86_64'', universalEntry)]"
proof -
  have h1: "resolveOs macTarget = js ''darwin''"
    by code_simp
  have h2: "resolveArch (js ''universal'') = js ''universal''"
    by code_simp
  have h3: "files macWorld universalSigPath = Some (js ''universal-signature'')"
    by code_simp
  have h4: "\<forall>k \<in> fst ` set [(js ''windows-x86_64'', intelEntry)].
              \<not> startsWith k (js ''darwin-'')"
    by code_simp
  from h4 have h4': "list_all (\<lambda>k. \<not> startsWith k (js ''darwin-''))
         (map fst [(js ''windows-x86_64'', intelEntry)])"
    by (simp only: list_all_iff set_map)
  have h5: "map_of [(js ''darwin-aarch64'', nativeEntry)] (js ''darwin-aarch64'')
              = Some nativeEntry"
    by code_simp
  have h6: "map_of [(js ''darwin-aarch64'', nativeEntry)] (js ''darwin-x86_64'') = None"
    by code_simp
  have v: "writePlatforms macWorld False (resolveOs macTarget) (resolveArch (js ''universal''))
         universalSigPath universalUrl [(js ''darwin-aarch64'', nativeEntry)]
       = Inr [(js ''darwin-aarch64'', nativeEntry), (js ''darwin-x86_64'', universalEntry)]"
    by code_simp
  from C2_universal [OF h1 h2 h3, of "[(js ''windows-x86_64'', intelEntry)]" universalUrl] h4
  have a: "writePlatforms macWorld False (resolveOs macTarget) (resolveArch (js ''universal''))
         universalSigPath universalUrl [(js ''windows-x86_64'', intelEntry)]
       = Inr ([(js ''windows-x86_64'', intelEntry)]
              @ [(js ''darwin-aarch64'',
                    \<lparr>signature = js ''universal-signature'', url = universalUrl\<rparr>),
                 (js ''darwin-x86_64'',
                    \<lparr>signature = js ''universal-signature'', url = universalUrl\<rparr>)])"
    by blast
  show ?thesis
    by (intro conjI h1 h2 h3 h4' h5 h6 a v)
qed

lemma universalWrites_keeps:
  assumes "files w p = Some s"
  shows "\<exists>added. universalWrites w p u ps = Inr (ps @ added)
     \<and> (\<forall>k v. map_of ps k = Some v \<longrightarrow> map_of (ps @ added) k = Some v)
     \<and> (\<forall>k \<in> fst ` set added. map_of ps k = None)
     \<and> set added \<subseteq> {(js ''darwin-aarch64'', \<lparr>signature = s, url = u\<rparr>),
                       (js ''darwin-x86_64'', \<lparr>signature = s, url = u\<rparr>)}"
proof -
  let ?added = "(if map_of ps (js ''darwin-aarch64'') = None
                  then [(js ''darwin-aarch64'', \<lparr>signature = s, url = u\<rparr>)] else [])
               @ (if map_of ps (js ''darwin-x86_64'') = None
                  then [(js ''darwin-x86_64'', \<lparr>signature = s, url = u\<rparr>)] else [])"
  have a: "universalWrites w p u ps = Inr (ps @ ?added)"
    by (simp add: universalWrites_read [OF assms])
  have b: "\<forall>k v. map_of ps k = Some v \<longrightarrow> map_of (ps @ ?added) k = Some v"
    by (simp add: map_add_def)
  have c: "\<forall>k \<in> fst ` set ?added. map_of ps k = None"
    by auto
  have d: "set ?added \<subseteq> {(js ''darwin-aarch64'', \<lparr>signature = s, url = u\<rparr>),
                       (js ''darwin-x86_64'', \<lparr>signature = s, url = u\<rparr>)}"
    by auto
  show ?thesis
    by (rule exI [of _ ?added]) (intro conjI a b c d)
qed

lemma writePlatforms_direct:
  assumes "files w p = Some s"
    and "keep \<or> os \<noteq> js ''darwin'' \<or> a \<noteq> js ''universal''"
  shows "\<exists>ps1. (if os = js ''darwin'' \<and> a = js ''universal''
                then universalWrites w p u ps else Inr ps) = Inr ps1
      \<and> writePlatforms w keep os a p u ps
          = Inr (AList.update (platformKey os a) \<lparr>signature = s, url = u\<rparr> ps1)"
proof (cases "os = js ''darwin'' \<and> a = js ''universal''")
  case True
  from universalWrites_keeps [OF assms(1), of u ps] obtain added where
    "universalWrites w p u ps = Inr (ps @ added)"
    by blast
  with True assms(2) show ?thesis
    by (simp add: writePlatforms_def assignEntry_read [OF assms(1)])
next
  case False
  then show ?thesis
    by (auto simp: writePlatforms_def assignEntry_read [OF assms(1)])
qed

text \<open>
  C6: when the signature file can be read, the universal write path (lines 190 to 204)
  only appends entries under keys the manifest does not have, so every entry present
  stays as it is, and it is all that is written for a darwin universal build without
  \<open>keepUniversal\<close>; the other write path (line 205 on, taken when \<open>keepUniversal\<close> is
  set or the pair is not darwin and universal) assigns the key made of OS and arch
  whatever the manifest holds under it, so that afterwards the key maps to the new entry.
\<close>

theorem C6_write_paths:
  assumes "files w sigPath = Some s"
  shows "(\<exists>added. universalWrites w sigPath u ps = Inr (ps @ added)
           \<and> (\<forall>k v. map_of ps k = Some v \<longrightarrow> map_of (ps @ added) k = Some v)
           \<and> (\<forall>k \<in> fst ` set added. map_of ps k = None))
    \<and> (os = js ''darwin'' \<and> a = js ''universal'' \<and> \<not> keep \<longrightarrow>
          writePlatforms w keep os a sigPath u ps = universalWrites w sigPath u ps)
    \<and> (keep \<or> os \<noteq> js ''darwin'' \<or> a \<noteq> js ''universal'' \<longrightarrow>
          (\<exists>ps1. (if os = js ''darwin'' \<and> a = js ''universal''
                   then universalWrites w sigPath u ps else Inr ps) = Inr ps1
             \<and> writePlatforms w keep os a sigPath u ps
                 = Inr (AList.update (platformKey os a) \<lparr>signature = s, url = u\<rparr> ps1)
             \<and> map_of (AList.update (platformKey os a) \<lparr>signature = s, url = u\<rparr> ps1)
                 (platformKey os a) = Some \<lparr>signature = s, url = u\<rparr>))"
proof (intro conjI impI)
  from universalWrites_keeps [OF assms, of u ps]
  show "\<exists>added. universalWrites w sigPath u ps = Inr (ps @ added)
           \<and> (\<forall>k v. map_of ps k = Some v \<longrightarrow> map_of (ps @ added) k = Some v)
           \<and> (\<forall>k \<in> fst ` set added. map_of ps k = None)"
    by blast
next
  assume "os = js ''darwin'' \<and> a = js ''universal'' \<and> \<not> keep"
  then show "writePlatforms w keep os a sigPath u ps = universalWrites w sigPath u ps"
    by (simp add: writePlatforms_universal)
next
  assume "keep \<or> os \<noteq> js ''darwin'' \<or> a \<noteq> js ''universal''"
  from writePlatforms_direct [OF assms this, of u ps] obtain ps1 where
    u1: "(if os = js ''darwin'' \<and> a = js ''universal''
           then universalWrites w sigPath u ps else Inr ps) = Inr ps1"
    and w1: "writePlatforms w keep os a sigPath u ps
                 = Inr (AList.update (platformKey os a) \<lparr>signature = s, url = u\<rparr> ps1)"
    by blast
  have m1: "map_of (AList.update (platformKey os a) \<lparr>signature = s, url = u\<rparr> ps1)
                 (platformKey os a) = Some \<lparr>signature = s, url = u\<rparr>"
    by (simp add: update_conv')
  show "\<exists>ps1. (if os = js ''darwin'' \<and> a = js ''universal''
                   then universalWrites w sigPath u ps else Inr ps) = Inr ps1
             \<and> writePlatforms w keep os a sigPath u ps
                 = Inr (AList.update (platformKey os a) \<lparr>signature = s, url = u\<rparr> ps1)
             \<and> map_of (AList.update (platformKey os a) \<lparr>signature = s, url = u\<rparr> ps1)
                 (platformKey os a) = Some \<lparr>signature = s, url = u\<rparr>"
    by (rule exI [of _ ps1]) (intro conjI u1 w1 m1)
qed

theorem C6_write_paths_witness:
  "files macWorld universalSigPath = Some (js ''universal-signature'')
   \<and> (js ''darwin'' = js ''darwin'' \<and> js ''universal'' = js ''universal'' \<and> \<not> False)
   \<and> writePlatforms macWorld False (js ''darwin'') (js ''universal'') universalSigPath
         universalUrl [(js ''darwin-aarch64'', nativeEntry)]
       = universalWrites macWorld universalSigPath universalUrl
           [(js ''darwin-aarch64'', nativeEntry)]
   \<and> universalWrites macWorld universalSigPath universalUrl
         [(js ''darwin-aarch64'', nativeEntry)]
       = Inr [(js ''darwin-aarch64'', nativeEntry), (js ''darwin-x86_64'', universalEntry)]
   \<and> (False \<or> js ''windows'' \<noteq> js ''darwin'' \<or> js ''x86_64'' \<noteq> js ''universal'')
   \<and> writePlatforms macWorld False (js ''windows'') (js ''x86_64'') universalSigPath
         universalUrl [(js ''windows-x86_64'', intelEntry)]
       = Inr [(js ''windows-x86_64'', universalEntry)]"
proof -
  have h: "files macWorld universalSigPath = Some (js ''universal-signature'')"
    by code_simp
  have c1: "js ''darwin'' = js ''darwin'' \<and> js ''universal'' = js ''universal'' \<and> \<not> False"
    by simp
  have c2: "False \<or> js ''windows'' \<noteq> js ''darwin'' \<or> js ''x86_64'' \<noteq> js ''universal''"
    by code_simp
  have v1: "universalWrites macWorld universalSigPath universalUrl
         [(js ''darwin-aarch64'', nativeEntry)]
       = Inr [(js ''darwin-aarch64'', nativeEntry), (js ''darwin-x86_64'', universalEntry)]"
    by code_simp
  have v2: "writePlatforms macWorld False (js ''windows'') (js ''x86_64'') universalSigPath
         universalUrl [(js ''windows-x86_64'', intelEntry)]
       = Inr [(js ''windows-x86_64'', universalEntry)]"
    by code_simp
  from C6_write_paths [OF h, of universalUrl "[(js ''darwin-aarch64'', nativeEntry)]"
      "js ''darwin''" "js ''universal''" False] c1
  have a: "writePlatforms macWorld False (js ''darwin'') (js ''universal'') universalSigPath
         universalUrl [(js ''darwin-aarch64'', nativeEntry)]
       = universalWrites macWorld universalSigPath universalUrl
           [(js ''darwin-aarch64'', nativeEntry)]"
    by blast
  from C6_write_paths [OF h, of universalUrl "[(js ''windows-x86_64'', intelEntry)]"
      "js ''windows''" "js ''x86_64''" False] c2
  have "\<exists>ps1. writePlatforms macWorld False (js ''windows'') (js ''x86_64'') universalSigPath
         universalUrl [(js ''windows-x86_64'', intelEntry)]
       = Inr (AList.update (platformKey (js ''windows'') (js ''x86_64''))
               \<lparr>signature = js ''universal-signature'', url = universalUrl\<rparr> ps1)"
    by blast
  show ?thesis
    by (intro conjI h c1 a v1 c2 v2)
qed

section \<open>The run\<close>

lemma uploadVersionJSON_no_token:
  "GITHUB_TOKEN w = None \<or> GITHUB_TOKEN w = Some [] \<Longrightarrow>
     snd (uploadVersionJSON ext w version1 notes1 tagName artifacts targetInfo preferNsis keep)
       = []"
  by (auto simp: uploadVersionJSON_def getOctokit_def)

text \<open>An empty token ends the run at line 52, before the listing request.\<close>

lemma uploadVersionJSON_empty_token:
  "GITHUB_TOKEN w = Some [] \<Longrightarrow>
     uploadVersionJSON ext w version1 notes1 tagName artifacts targetInfo preferNsis keep
       = (Inl TokenRequired, [])"
  by (simp add: uploadVersionJSON_def getOctokit_def)

lemma uploadVersionJSON_token:
  assumes "GITHUB_TOKEN w = Some token" and "token \<noteq> []"
  shows "uploadVersionJSON ext w version1 notes1 tagName artifacts targetInfo preferNsis keep
     = (case fetchPlatforms w (findVersionAsset (listReleaseAssets 50 w)) of
          Inl e \<Rightarrow>
            (Inl e, ListReleaseAssets 50
               # (case findVersionAsset (listReleaseAssets 50 w) of
                    None \<Rightarrow> [] | Some a \<Rightarrow> [GetReleaseAsset (asset_id a)]))
        | Inr ps \<Rightarrow>
            (fst (publish ext w version1 notes1 tagName targetInfo preferNsis keep
                   (findVersionAsset (listReleaseAssets 50 w)) ps
                   (filterAssets ext (downloadUrls (listReleaseAssets 50 w)) artifacts)),
             (ListReleaseAssets 50
               # (case findVersionAsset (listReleaseAssets 50 w) of
                    None \<Rightarrow> [] | Some a \<Rightarrow> [GetReleaseAsset (asset_id a)]))
             @ snd (publish ext w version1 notes1 tagName targetInfo preferNsis keep
                   (findVersionAsset (listReleaseAssets 50 w)) ps
                   (filterAssets ext (downloadUrls (listReleaseAssets 50 w)) artifacts))))"
  by (simp add: uploadVersionJSON_def getOctokit_def assms Let_def
      split: sum.splits prod.splits)

lemma publish_no_signature:
  "signatureFilesOf filteredAssets = [] \<Longrightarrow>
     publish ext w version1 notes1 tagName targetInfo preferNsis keep asset ps filteredAssets
       = (Inr NoSignature, [])"
  by (simp add: publish_def selectSignature_def sortSignatureFiles_def sortBy_def)

lemma publish_lists_nothing:
  "ListReleaseAssets n \<notin> set (snd (publish ext w version1 notes1 tagName targetInfo preferNsis
       keep asset ps filteredAssets))"
  by (simp add: publish_def Let_def split: option.splits sum.splits)

lemma publish_no_asset_no_delete:
  "DeleteReleaseAsset i \<notin> set (snd (publish ext w version1 notes1 tagName targetInfo preferNsis
       keep None ps filteredAssets))
   \<and> GetReleaseAsset i \<notin> set (snd (publish ext w version1 notes1 tagName targetInfo preferNsis
       keep asset ps filteredAssets))"
  by (simp add: publish_def Let_def split: option.splits sum.splits)

text \<open>
  C8: when the token is present and not empty, the listing holds an asset named \<open>latest.json\<close> and
  its content is not JSON, the run fails with the syntax error of \<open>JSON.parse\<close>. By
  then it has made the listing request and fetched the asset, nothing else: no file is
  written, nothing deleted or uploaded, whatever the artifacts, and no manifest is built
  from an empty platforms map.
\<close>

theorem C8_malformed_manifest:
  assumes "GITHUB_TOKEN w = Some token"
    and "token \<noteq> []"
    and "findVersionAsset (listReleaseAssets 50 w) = Some asset"
    and "assetData w (asset_id asset) = NotJSON"
  shows "name asset = versionFilename
    \<and> uploadVersionJSON ext w version1 notes1 tagName artifacts targetInfo preferNsis keep
        = (Inl SyntaxError, [ListReleaseAssets 50, GetReleaseAsset (asset_id asset)])"
proof
  from assms(3) show "name asset = versionFilename"
    by (auto simp: findVersionAsset_def find_Some_iff)
  show "uploadVersionJSON ext w version1 notes1 tagName artifacts targetInfo preferNsis keep
        = (Inl SyntaxError, [ListReleaseAssets 50, GetReleaseAsset (asset_id asset)])"
    by (simp add: uploadVersionJSON_token [OF assms(1,2)] assms(3,4) fetchPlatforms_def)
qed

theorem C8_malformed_manifest_witness:
  "GITHUB_TOKEN brokenWorld = Some (js ''token'')
   \<and> js ''token'' \<noteq> []
   \<and> findVersionAsset (listReleaseAssets 50 brokenWorld) = Some latestJson
   \<and> assetData brokenWorld (asset_id latestJson) = NotJSON
   \<and> name latestJson = versionFilename
   \<and> uploadVersionJSON posixAscii brokenWorld (js ''1.2.3'') (js ''notes'') (js ''v1.2.3'')
         macArtifacts macTarget False False
       = (Inl SyntaxError, [ListReleaseAssets 50, GetReleaseAsset (asset_id latestJson)])"
proof -
  have h1: "GITHUB_TOKEN brokenWorld = Some (js ''token'')"
    by code_simp
  have tk: "js ''token'' \<noteq> []"
    by code_simp
  have h2: "findVersionAsset (listReleaseAssets 50 brokenWorld) = Some latestJson"
    by code_simp
  have h3: "assetData brokenWorld (asset_id latestJson) = NotJSON"
    by code_simp
  from C8_malformed_manifest [OF h1 tk h2 h3, of posixAscii "js ''1.2.3''" "js ''notes''"
      "js ''v1.2.3''" macArtifacts macTarget False False]
  show ?thesis
    by (intro conjI h1 tk h2 h3) blast+
qed

text \<open>
  C7: when no matched asset has a name ending in \<open>.sig\<close>, the run writes no
  \<open>latest.json\<close>, deletes nothing and uploads nothing; and a run that reaches the
  selection (the token is present and not empty, and the existing manifest, if there is
  one, was read)
  ends successfully with nothing to publish, having made only the listing request and
  the fetch of the manifest.
\<close>

theorem C7_no_signature:
  assumes "signatureFilesOf (filterAssets ext (downloadUrls (listReleaseAssets 50 w)) artifacts)
             = []"
  shows "(\<forall>e \<in> set (snd (uploadVersionJSON ext w version1 notes1 tagName artifacts targetInfo
                          preferNsis keep)). \<not> mutates e)
    \<and> (\<forall>token ps. GITHUB_TOKEN w = Some token \<and> token \<noteq> []
          \<and> fetchPlatforms w (findVersionAsset (listReleaseAssets 50 w)) = Inr ps \<longrightarrow>
          uploadVersionJSON ext w version1 notes1 tagName artifacts targetInfo preferNsis keep
            = (Inr NoSignature,
               ListReleaseAssets 50
                 # (case findVersionAsset (listReleaseAssets 50 w) of
                      None \<Rightarrow> [] | Some a \<Rightarrow> [GetReleaseAsset (asset_id a)])))"
proof (intro conjI allI impI)
  show "\<forall>e \<in> set (snd (uploadVersionJSON ext w version1 notes1 tagName artifacts targetInfo
                          preferNsis keep)). \<not> mutates e"
  proof (cases "GITHUB_TOKEN w")
    case None
    then show ?thesis
      by (simp add: uploadVersionJSON_def)
  next
    case (Some token)
    show ?thesis
    proof (cases "token = []")
      case True
      with Some show ?thesis
        by (simp add: uploadVersionJSON_no_token)
    next
      case False
      show ?thesis
        unfolding uploadVersionJSON_token [OF Some False]
        by (auto simp: publish_no_signature [OF assms] split: sum.splits option.splits)
    qed
  qed
next
  fix token ps
  assume "GITHUB_TOKEN w = Some token \<and> token \<noteq> []
          \<and> fetchPlatforms w (findVersionAsset (listReleaseAssets 50 w)) = Inr ps"
  then show "uploadVersionJSON ext w version1 notes1 tagName artifacts targetInfo preferNsis keep
            = (Inr NoSignature,
               ListReleaseAssets 50
                 # (case findVersionAsset (listReleaseAssets 50 w) of
                      None \<Rightarrow> [] | Some a \<Rightarrow> [GetReleaseAsset (asset_id a)]))"
    by (simp add: uploadVersionJSON_token publish_no_signature [OF assms])
qed

theorem C7_no_signature_witness:
  "signatureFilesOf (filterAssets posixAscii (downloadUrls (listReleaseAssets 50 unsignedWorld))
       macArtifacts) = []
   \<and> GITHUB_TOKEN unsignedWorld = Some (js ''token'')
   \<and> js ''token'' \<noteq> []
   \<and> fetchPlatforms unsignedWorld (findVersionAsset (listReleaseAssets 50 unsignedWorld))
       = Inr [(js ''darwin-aarch64'', nativeEntry)]
   \<and> uploadVersionJSON posixAscii unsignedWorld (js ''1.2.3'') (js ''notes'') (js ''v1.2.3'')
         macArtifacts macTarget False False
       = (Inr NoSignature,
          ListReleaseAssets 50
            # (case findVersionAsset (listReleaseAssets 50 unsignedWorld) of
                 None \<Rightarrow> [] | Some a \<Rightarrow> [GetReleaseAsset (asset_id a)]))
   \<and> list_all (\<lambda>e. \<not> mutates e)
         (snd (uploadVersionJSON posixAscii unsignedWorld (js ''1.2.3'') (js ''notes'')
                (js ''v1.2.3'') macArtifacts macTarget False False))
   \<and> uploadVersionJSON posixAscii unsignedWorld (js ''1.2.3'') (js ''notes'') (js ''v1.2.3'')
         macArtifacts macTarget False False
       = (Inr NoSignature, [ListReleaseAssets 50, GetReleaseAsset 3])"
proof -
  have h1: "signatureFilesOf (filterAssets posixAscii
       (downloadUrls (listReleaseAssets 50 unsignedWorld)) macArtifacts) = []"
    by code_simp
  have h2: "GITHUB_TOKEN unsignedWorld = Some (js ''token'')"
    by code_simp
  have tk: "js ''token'' \<noteq> []"
    by code_simp
  have h3: "fetchPlatforms unsignedWorld (findVersionAsset (listReleaseAssets 50 unsignedWorld))
       = Inr [(js ''darwin-aarch64'', nativeEntry)]"
    by code_simp
  have v: "uploadVersionJSON posixAscii unsignedWorld (js ''1.2.3'') (js ''notes'') (js ''v1.2.3'')
         macArtifacts macTarget False False
       = (Inr NoSignature, [ListReleaseAssets 50, GetReleaseAsset 3])"
    by code_simp
  note t = C7_no_signature [OF h1, of "js ''1.2.3''" "js ''notes''" "js ''v1.2.3''" macTarget
      False False]
  from t have "\<forall>e \<in> set (snd (uploadVersionJSON posixAscii unsignedWorld (js ''1.2.3'')
      (js ''notes'') (js ''v1.2.3'') macArtifacts macTarget False False)). \<not> mutates e"
    by (rule conjunct1)
  then have a: "list_all (\<lambda>e. \<not> mutates e)
         (snd (uploadVersionJSON posixAscii unsignedWorld (js ''1.2.3'') (js ''notes'')
                (js ''v1.2.3'') macArtifacts macTarget False False))"
    by (simp only: list_all_iff)
  from t h2 tk h3 have b: "uploadVersionJSON posixAscii unsignedWorld (js ''1.2.3'') (js ''notes'')
         (js ''v1.2.3'') macArtifacts macTarget False False
       = (Inr NoSignature,
          ListReleaseAssets 50
            # (case findVersionAsset (listReleaseAssets 50 unsignedWorld) of
                 None \<Rightarrow> [] | Some a \<Rightarrow> [GetReleaseAsset (asset_id a)]))"
    by blast
  show ?thesis
    by (intro conjI h1 h2 tk h3 a b v)
qed

section \<open>One page of the listing\<close>

lemma downloadUrls_dom_fold:
  "dom (fold (\<lambda>d m. m(name d \<mapsto> browser_download_url d)) assets m)
     = dom m \<union> name ` set assets"
  by (induction assets arbitrary: m) auto

lemma downloadUrls_dom: "dom (downloadUrls assets) = name ` set assets"
  using downloadUrls_dom_fold [of assets Map.empty] by (simp add: downloadUrls_def)

lemma downloadUrls_None: "(downloadUrls assets n = None) = (n \<notin> name ` set assets)"
  unfolding downloadUrls_dom [symmetric] by (simp add: domIff)

lemma matchArtifact_unlisted:
  "artifactAssetName ext artifact \<notin> name ` set assets \<Longrightarrow>
     matchArtifact ext (downloadUrls assets) artifact = None"
  by (simp add: matchArtifact_def downloadUrls_None [THEN iffD2])

lemma filterAssets_listed:
  "fa \<in> set (filterAssets ext (downloadUrls assets) artifacts) \<Longrightarrow>
     assetName fa \<in> name ` set assets"
proof -
  assume "fa \<in> set (filterAssets ext (downloadUrls assets) artifacts)"
  then obtain artifact where m: "matchArtifact ext (downloadUrls assets) artifact = Some fa"
    by (auto simp: filterAssets_def List.map_filter_def)
  then have "downloadUrls assets (assetName fa) \<noteq> None"
    by (auto simp: matchArtifact_def split: option.splits if_splits)
  then show ?thesis
    by (simp add: downloadUrls_None)
qed

lemma findVersionAsset_None:
  "(findVersionAsset assets = None) = (versionFilename \<notin> name ` set assets)"
  by (auto simp: findVersionAsset_def find_None_iff image_iff)

lemma first_page_world:
  "listReleaseAssets 50 (w\<lparr>releaseAssets := take 50 (releaseAssets w)\<rparr>)
     = listReleaseAssets 50 w"
  by (simp add: listReleaseAssets_def)

lemma readFileSync_first_page_world:
  "readFileSync (w\<lparr>releaseAssets := xs\<rparr>) p = readFileSync w p"
  by (simp add: readFileSync_def)

lemma assignEntry_first_page_world:
  "assignEntry (w\<lparr>releaseAssets := xs\<rparr>) k p u ps = assignEntry w k p u ps"
  by (simp add: assignEntry_def readFileSync_first_page_world)

lemma assignIfAbsent_first_page_world:
  "assignIfAbsent (w\<lparr>releaseAssets := xs\<rparr>) k p u ps = assignIfAbsent w k p u ps"
  by (simp add: assignIfAbsent_def assignEntry_first_page_world)

lemma universalWrites_first_page_world:
  "universalWrites (w\<lparr>releaseAssets := xs\<rparr>) p u ps = universalWrites w p u ps"
  by (simp add: universalWrites_def assignIfAbsent_first_page_world cong: sum.case_cong)

lemma writePlatforms_first_page_world:
  "writePlatforms (w\<lparr>releaseAssets := xs\<rparr>) keep os a p u ps = writePlatforms w keep os a p u ps"
  by (simp add: writePlatforms_def universalWrites_first_page_world
      assignEntry_first_page_world cong: sum.case_cong if_cong)

lemma versionFile_first_page_world:
  "versionFile fl (w\<lparr>releaseAssets := xs\<rparr>) = versionFile fl w"
  by (simp add: versionFile_def)

lemma publish_first_page_world:
  "publish ext (w\<lparr>releaseAssets := xs\<rparr>) version1 notes1 tagName targetInfo preferNsis keep
       asset ps filteredAssets
     = publish ext w version1 notes1 tagName targetInfo preferNsis keep asset ps filteredAssets"
  by (simp add: publish_def writePlatforms_first_page_world versionFile_first_page_world
      cong: option.case_cong sum.case_cong)

lemma fetchPlatforms_first_page_world:
  "fetchPlatforms (w\<lparr>releaseAssets := xs\<rparr>) asset = fetchPlatforms w asset"
  by (cases asset) (simp_all add: fetchPlatforms_def)

lemma run_first_page_world:
  "uploadVersionJSON ext (w\<lparr>releaseAssets := take 50 (releaseAssets w)\<rparr>) version1 notes1
       tagName artifacts targetInfo preferNsis keep
     = uploadVersionJSON ext w version1 notes1 tagName artifacts targetInfo preferNsis keep"
proof (cases "GITHUB_TOKEN w")
  case None
  then show ?thesis
    by (simp add: uploadVersionJSON_def)
next
  case (Some token)
  then have cut: "GITHUB_TOKEN (w\<lparr>releaseAssets := take 50 (releaseAssets w)\<rparr>) = Some token"
    by simp
  show ?thesis
  proof (cases "token = []")
    case True
    with Some show ?thesis
      by (simp add: uploadVersionJSON_def getOctokit_def)
  next
    case False
    from uploadVersionJSON_token [OF cut False] uploadVersionJSON_token [OF Some False]
    show ?thesis
      by (simp only: first_page_world publish_first_page_world
          fetchPlatforms_first_page_world)
  qed
qed

lemma run_trace_shape:
  assumes "GITHUB_TOKEN w = Some token" and "token \<noteq> []"
  shows "\<exists>rest. snd (uploadVersionJSON ext w version1 notes1 tagName artifacts targetInfo
                      preferNsis keep) = ListReleaseAssets 50 # rest
           \<and> (\<forall>n. ListReleaseAssets n \<notin> set rest)"
  unfolding uploadVersionJSON_token [OF assms]
  using publish_lists_nothing
  by (auto split: sum.splits option.splits)

lemma run_without_manifest:
  assumes "GITHUB_TOKEN w = Some token"
    and "token \<noteq> []"
    and "versionFilename \<notin> name ` set (take 50 (releaseAssets w))"
  shows "uploadVersionJSON ext w version1 notes1 tagName artifacts targetInfo preferNsis keep
       = (fst (publish ext w version1 notes1 tagName targetInfo preferNsis keep None []
                (filterAssets ext (downloadUrls (listReleaseAssets 50 w)) artifacts)),
          ListReleaseAssets 50
            # snd (publish ext w version1 notes1 tagName targetInfo preferNsis keep None []
                (filterAssets ext (downloadUrls (listReleaseAssets 50 w)) artifacts)))"
proof -
  have "findVersionAsset (listReleaseAssets 50 w) = None"
    using assms(3) by (simp add: findVersionAsset_None listReleaseAssets_def)
  then show ?thesis
    by (simp add: uploadVersionJSON_token [OF assms(1,2)] fetchPlatforms_def)
qed

lemma run_without_manifest_effects:
  assumes "GITHUB_TOKEN w = Some token"
    and "token \<noteq> []"
    and "versionFilename \<notin> name ` set (take 50 (releaseAssets w))"
  shows "GetReleaseAsset i \<notin> set (snd (uploadVersionJSON ext w version1 notes1 tagName artifacts
            targetInfo preferNsis keep))
       \<and> DeleteReleaseAsset i \<notin> set (snd (uploadVersionJSON ext w version1 notes1 tagName
            artifacts targetInfo preferNsis keep))"
  unfolding run_without_manifest [OF assms]
  using publish_no_asset_no_delete by simp

text \<open>
  C10: a run with a non-empty token makes exactly one listing request, with a page size of 50, and
  only the first 50 assets of the release take part: the run is the run on the release
  cut down to them. So an artifact whose asset name is not among the first 50 (its asset
  may well come later in the listing) is not matched, and when none of the first 50 is
  named \<open>latest.json\<close> (one may come later) the merge starts from the empty map, no
  asset is fetched and none deleted.
\<close>

theorem C10_single_page:
  assumes "GITHUB_TOKEN w = Some token" and "token \<noteq> []"
  shows "(\<exists>rest. snd (uploadVersionJSON ext w version1 notes1 tagName artifacts targetInfo
                      preferNsis keep) = ListReleaseAssets 50 # rest
           \<and> (\<forall>n. ListReleaseAssets n \<notin> set rest))
    \<and> uploadVersionJSON ext (w\<lparr>releaseAssets := take 50 (releaseAssets w)\<rparr>) version1 notes1
          tagName artifacts targetInfo preferNsis keep
        = uploadVersionJSON ext w version1 notes1 tagName artifacts targetInfo preferNsis keep
    \<and> (\<forall>artifact. artifactAssetName ext artifact \<notin> name ` set (take 50 (releaseAssets w)) \<longrightarrow>
          matchArtifact ext (downloadUrls (listReleaseAssets 50 w)) artifact = None
          \<and> artifactAssetName ext artifact
              \<notin> assetName ` set (filterAssets ext (downloadUrls (listReleaseAssets 50 w))
                                   artifacts))
    \<and> (versionFilename \<notin> name ` set (take 50 (releaseAssets w)) \<longrightarrow>
          uploadVersionJSON ext w version1 notes1 tagName artifacts targetInfo preferNsis keep
            = (fst (publish ext w version1 notes1 tagName targetInfo preferNsis keep None []
                     (filterAssets ext (downloadUrls (listReleaseAssets 50 w)) artifacts)),
               ListReleaseAssets 50
                 # snd (publish ext w version1 notes1 tagName targetInfo preferNsis keep None []
                     (filterAssets ext (downloadUrls (listReleaseAssets 50 w)) artifacts)))
          \<and> (\<forall>i. GetReleaseAsset i
                    \<notin> set (snd (uploadVersionJSON ext w version1 notes1 tagName artifacts
                                   targetInfo preferNsis keep))
                 \<and> DeleteReleaseAsset i
                    \<notin> set (snd (uploadVersionJSON ext w version1 notes1 tagName artifacts
                                   targetInfo preferNsis keep))))"
proof (intro conjI allI impI)
  show "\<exists>rest. snd (uploadVersionJSON ext w version1 notes1 tagName artifacts targetInfo
                      preferNsis keep) = ListReleaseAssets 50 # rest
           \<and> (\<forall>n. ListReleaseAssets n \<notin> set rest)"
    by (rule run_trace_shape [OF assms])
  show "uploadVersionJSON ext (w\<lparr>releaseAssets := take 50 (releaseAssets w)\<rparr>) version1 notes1
          tagName artifacts targetInfo preferNsis keep
        = uploadVersionJSON ext w version1 notes1 tagName artifacts targetInfo preferNsis keep"
    by (rule run_first_page_world)
next
  fix artifact
  assume un: "artifactAssetName ext artifact \<notin> name ` set (take 50 (releaseAssets w))"
  then show "matchArtifact ext (downloadUrls (listReleaseAssets 50 w)) artifact = None"
    unfolding listReleaseAssets_def by (rule matchArtifact_unlisted)
  from un show "artifactAssetName ext artifact
              \<notin> assetName ` set (filterAssets ext (downloadUrls (listReleaseAssets 50 w))
                                   artifacts)"
    unfolding listReleaseAssets_def using filterAssets_listed by fastforce
next
  assume nv: "versionFilename \<notin> name ` set (take 50 (releaseAssets w))"
  show "uploadVersionJSON ext w version1 notes1 tagName artifacts targetInfo preferNsis keep
            = (fst (publish ext w version1 notes1 tagName targetInfo preferNsis keep None []
                     (filterAssets ext (downloadUrls (listReleaseAssets 50 w)) artifacts)),
               ListReleaseAssets 50
                 # snd (publish ext w version1 notes1 tagName targetInfo preferNsis keep None []
                     (filterAssets ext (downloadUrls (listReleaseAssets 50 w)) artifacts)))"
    by (rule run_without_manifest [OF assms nv])
  fix i
  from run_without_manifest_effects [OF assms nv]
  show "GetReleaseAsset i
                    \<notin> set (snd (uploadVersionJSON ext w version1 notes1 tagName artifacts
                                   targetInfo preferNsis keep))"
    and "DeleteReleaseAsset i
                    \<notin> set (snd (uploadVersionJSON ext w version1 notes1 tagName artifacts
                                   targetInfo preferNsis keep))"
    by blast+
qed

theorem C10_single_page_witness:
  "GITHUB_TOKEN overfullWorld = Some (js ''token'')
   \<and> js ''token'' \<noteq> []
   \<and> 50 < length (releaseAssets overfullWorld)
   \<and> artifactAssetName posixAscii \<lparr>path = universalSigPath, arch = js ''universal''\<rparr>
       \<in> name ` set (drop 50 (releaseAssets overfullWorld))
   \<and> artifactAssetName posixAscii \<lparr>path = universalSigPath, arch = js ''universal''\<rparr>
       \<notin> name ` set (take 50 (releaseAssets overfullWorld))
   \<and> matchArtifact posixAscii (downloadUrls (listReleaseAssets 50 overfullWorld))
         \<lparr>path = universalSigPath, arch = js ''universal''\<rparr> = None
   \<and> versionFilename \<in> name ` set (drop 50 (releaseAssets overfullWorld))
   \<and> versionFilename \<notin> name ` set (take 50 (releaseAssets overfullWorld))
   \<and> (\<forall>i. GetReleaseAsset i
            \<notin> set (snd (uploadVersionJSON posixAscii overfullWorld (js ''1.2.3'') (js ''notes'')
                           (js ''v1.2.3'') macArtifacts macTarget False False))
         \<and> DeleteReleaseAsset i
            \<notin> set (snd (uploadVersionJSON posixAscii overfullWorld (js ''1.2.3'') (js ''notes'')
                           (js ''v1.2.3'') macArtifacts macTarget False False)))
   \<and> uploadVersionJSON posixAscii overfullWorld (js ''1.2.3'') (js ''notes'') (js ''v1.2.3'')
         macArtifacts macTarget False False
       = (Inr NoSignature, [ListReleaseAssets 50])
   \<and> GITHUB_TOKEN crowdedWorld = Some (js ''token'')
   \<and> versionFilename \<in> name ` set (drop 50 (releaseAssets crowdedWorld))
   \<and> versionFilename \<notin> name ` set (take 50 (releaseAssets crowdedWorld))
   \<and> (\<forall>i. GetReleaseAsset i
            \<notin> set (snd (uploadVersionJSON posixAscii crowdedWorld (js ''1.2.3'') (js ''notes'')
                           (js ''v1.2.3'') macArtifacts macTarget False False))
         \<and> DeleteReleaseAsset i
            \<notin> set (snd (uploadVersionJSON posixAscii crowdedWorld (js ''1.2.3'') (js ''notes'')
                           (js ''v1.2.3'') macArtifacts macTarget False False)))
   \<and> uploadVersionJSON posixAscii crowdedWorld (js ''1.2.3'') (js ''notes'') (js ''v1.2.3'')
         macArtifacts macTarget False False
       = (Inr (Published (firstManifest\<lparr>platforms :=
                 [(js ''darwin-aarch64'', universalEntry),
                  (js ''darwin-x86_64'', universalEntry)]\<rparr>)),
          [ListReleaseAssets 50,
           WriteFile (js ''/work/latest.json'')
             (firstManifest\<lparr>platforms :=
                 [(js ''darwin-aarch64'', universalEntry),
                  (js ''darwin-x86_64'', universalEntry)]\<rparr>),
           UploadAssets [\<lparr>path = js ''/work/latest.json'', arch = []\<rparr>]])"
proof -
  have h1: "GITHUB_TOKEN overfullWorld = Some (js ''token'')"
    by code_simp
  have tk: "js ''token'' \<noteq> []"
    by code_simp
  have h2: "50 < length (releaseAssets overfullWorld)"
    by code_simp
  have h3: "artifactAssetName posixAscii \<lparr>path = universalSigPath, arch = js ''universal''\<rparr>
       \<in> name ` set (drop 50 (releaseAssets overfullWorld))"
    by code_simp
  have h4: "artifactAssetName posixAscii \<lparr>path = universalSigPath, arch = js ''universal''\<rparr>
       \<notin> name ` set (take 50 (releaseAssets overfullWorld))"
    by code_simp
  have h5: "versionFilename \<in> name ` set (drop 50 (releaseAssets overfullWorld))"
    by code_simp
  have h6: "versionFilename \<notin> name ` set (take 50 (releaseAssets overfullWorld))"
    by code_simp
  have v: "uploadVersionJSON posixAscii overfullWorld (js ''1.2.3'') (js ''notes'') (js ''v1.2.3'')
         macArtifacts macTarget False False
       = (Inr NoSignature, [ListReleaseAssets 50])"
    by code_simp
  note t = C10_single_page [OF h1 tk, of posixAscii "js ''1.2.3''" "js ''notes''" "js ''v1.2.3''"
      macArtifacts macTarget False False]
  from t h4 have a: "matchArtifact posixAscii (downloadUrls (listReleaseAssets 50 overfullWorld))
         \<lparr>path = universalSigPath, arch = js ''universal''\<rparr> = None"
    by blast
  from t h6 have b: "\<forall>i. GetReleaseAsset i
            \<notin> set (snd (uploadVersionJSON posixAscii overfullWorld (js ''1.2.3'') (js ''notes'')
                           (js ''v1.2.3'') macArtifacts macTarget False False))
         \<and> DeleteReleaseAsset i
            \<notin> set (snd (uploadVersionJSON posixAscii overfullWorld (js ''1.2.3'') (js ''notes'')
                           (js ''v1.2.3'') macArtifacts macTarget False False))"
    by blast
  have k1: "GITHUB_TOKEN crowdedWorld = Some (js ''token'')"
    by code_simp
  have k5: "versionFilename \<in> name ` set (drop 50 (releaseAssets crowdedWorld))"
    by code_simp
  have k6: "versionFilename \<notin> name ` set (take 50 (releaseAssets crowdedWorld))"
    by code_simp
  have kv: "uploadVersionJSON posixAscii crowdedWorld (js ''1.2.3'') (js ''notes'') (js ''v1.2.3'')
         macArtifacts macTarget False False
       = (Inr (Published (firstManifest\<lparr>platforms :=
                 [(js ''darwin-aarch64'', universalEntry),
                  (js ''darwin-x86_64'', universalEntry)]\<rparr>)),
          [ListReleaseAssets 50,
           WriteFile (js ''/work/latest.json'')
             (firstManifest\<lparr>platforms :=
                 [(js ''darwin-aarch64'', universalEntry),
                  (js ''darwin-x86_64'', universalEntry)]\<rparr>),
           UploadAssets [\<lparr>path = js ''/work/latest.json'', arch = []\<rparr>]])"
    by code_simp
  note t' = C10_single_page [OF k1 tk, of posixAscii "js ''1.2.3''" "js ''notes''" "js ''v1.2.3''"
      macArtifacts macTarget False False]
  from t' k6 have kb: "\<forall>i. GetReleaseAsset i
            \<notin> set (snd (uploadVersionJSON posixAscii crowdedWorld (js ''1.2.3'') (js ''notes'')
                           (js ''v1.2.3'') macArtifacts macTarget False False))
         \<and> DeleteReleaseAsset i
            \<notin> set (snd (uploadVersionJSON posixAscii crowdedWorld (js ''1.2.3'') (js ''notes'')
                           (js ''v1.2.3'') macArtifacts macTarget False False))"
    by blast
  show ?thesis
    by (intro conjI h1 tk h2 h3 h4 h5 h6 a b v k1 k5 k6 kb kv)
qed

section \<open>Running twice\<close>

















end
